theory Spec2Isabelle
  imports Complex_Main "HOL-Library.AList" "HOL-Library.Char_ord" "HOL-Library.List_Lexorder"
    "HOL-Library.Log_Nat"
begin

section \<open>Gift Castle escrow bot: ledger, deals and the deal id sequence\<close>

text \<open>
  The model follows \<^verbatim>\<open>src/server.js\<close>. The four JSON caches of the bot
  (\<^verbatim>\<open>users._seq\<close>, \<^verbatim>\<open>balances\<close>, \<^verbatim>\<open>deals\<close>, \<^verbatim>\<open>logs\<close>) are the
  fields of one state record that every handler takes and returns. A JavaScript object
  is an association list: a lookup of an own key is \<open>map_of\<close>, an assignment
  \<^verbatim>\<open>o[k] = v\<close> is \<open>AList.update\<close> (replace in place, or append a new key). The
  lookup \<^verbatim>\<open>deals[dealId]\<close> also finds the keys that every object inherits from
  \<^verbatim>\<open>Object.prototype\<close>.

  Numbers. A JavaScript number is an IEEE binary64 value; the model holds its exact
  rational value. Every sum and difference of the code is rounded to binary64
  (\<open>round64\<close>), as is every number read from text. \<^verbatim>\<open>NaN\<close> is \<open>None\<close> where the
  code tests for it; the overflow to \<^verbatim>\<open>Infinity\<close> beyond \<open>2\<^sup>1\<^sup>0\<^sup>2\<^sup>4\<close> and the exponent
  form that \<^verbatim>\<open>toFixed\<close> switches to from \<open>10\<^sup>2\<^sup>1\<close> on are outside the model. Chat
  messages, photo edits and the writes of the JSON files are not modelled: no handler
  reads them back.
\<close>

subsection \<open>Numbers\<close>

type_synonym user_id = int

text \<open>\<open>\<lfloor>log\<^sub>2 x\<rfloor>\<close> for a positive rational, from the bit lengths of its numerator and denominator.\<close>

definition ilog2 :: "rat \<Rightarrow> int" where
  "ilog2 x =
     (case quotient_of x of
        (p, q) \<Rightarrow> let d = bitlen p - bitlen q in if 2 powi d \<le> x then d else d - 1)"

text \<open>The nearest integer, of two equally near ones the even one.\<close>

definition round_even :: "rat \<Rightarrow> int" where
  "round_even y =
     (let f = \<lfloor>y\<rfloor>; r = y - of_int f
      in if r < 1 / 2 then f else if 1 / 2 < r then f + 1 else if even f then f else f + 1)"

text \<open>
  The binary64 value nearest to \<open>x\<close>, ties to even: 53 significant bits at the binary
  exponent of \<open>x\<close>, the exponent not below -1022 (subnormal numbers).
\<close>

definition round64 :: "rat \<Rightarrow> rat" where
  "round64 x =
     (if x = 0 then 0
      else let e = max (ilog2 \<bar>x\<bar>) (- 1022); q = 2 powi (e - 52)
           in of_int (round_even (x / q)) * q)"

text \<open>The sum \<^verbatim>\<open>a + b\<close> and the difference \<^verbatim>\<open>a - b\<close> of two numbers.\<close>

definition plus64 :: "rat \<Rightarrow> rat \<Rightarrow> rat" where
  "plus64 a b = round64 (a + b)"

definition minus64 :: "rat \<Rightarrow> rat \<Rightarrow> rat" where
  "minus64 a b = round64 (a - b)"

text \<open>
  The decimal that \<^verbatim>\<open>x.toFixed(8)\<close> prints: the multiple of \<open>10\<^sup>-\<^sup>8\<close> nearest to the
  exact value of \<open>x\<close>; of two equally near ones \<^verbatim>\<open>toFixed\<close> takes the larger
  magnitude (it formats \<open>-x\<close> for a negative \<open>x\<close> and puts the sign in front).
\<close>

definition toFixed8 :: "rat \<Rightarrow> rat" where
  "toFixed8 x =
     (if x < 0 then - (of_int \<lfloor>(- x) * 100000000 + 1 / 2\<rfloor> / 100000000)
      else of_int \<lfloor>x * 100000000 + 1 / 2\<rfloor> / 100000000)"

text \<open>\<^verbatim>\<open>Number(x.toFixed(8))\<close>: the printed decimal, read back as a number.\<close>

definition num8 :: "rat \<Rightarrow> rat" where
  "num8 x = round64 (toFixed8 x)"

text \<open>An amount with at most 8 fractional digits.\<close>

definition is8 :: "rat \<Rightarrow> bool" where
  "is8 x = (of_int \<lfloor>x * 100000000\<rfloor> = x * 100000000)"

text \<open>
  A number that is the binary64 value of an amount with at most 8 fractional digits, as
  \<^verbatim>\<open>Number(x.toFixed(8))\<close> is; for a price the amount is not negative.
\<close>

definition stored8 :: "rat \<Rightarrow> bool" where
  "stored8 x = (\<exists>t. is8 t \<and> x = round64 t)"

definition price_ok :: "rat \<Rightarrow> bool" where
  "price_ok x = (\<exists>t. is8 t \<and> 0 \<le> t \<and> x = round64 t)"

text \<open>
  A stored amount between 0 and ten million: it prints as an 8-decimal amount of at most
  \<open>10\<^sup>7\<close> and is the binary64 value of what it prints.
\<close>

definition amount_ok :: "rat \<Rightarrow> bool" where
  "amount_ok x = (0 \<le> x \<and> toFixed8 x \<le> 10000000 \<and> round64 (toFixed8 x) = x)"

subsection \<open>The deal id sequence\<close>

text \<open>
  \<^verbatim>\<open>users._seq = { letter: "A", number: 7342 }\<close>. The letter is one character; the
  model's characters are 8 bit wide, which covers every letter the counter reaches from
  \<open>A\<close>.
\<close>

record seq_counter =
  letter :: char
  number :: nat

definition seq_init :: seq_counter where
  "seq_init = \<lparr>letter = CHR ''A'', number = 7342\<rparr>"

definition digit_char :: "nat \<Rightarrow> char" where
  "digit_char d = char_of (48 + d)"

text \<open>The decimal digits of a number, as the template literal \<^verbatim>\<open>${number}\<close> prints them.\<close>

function string_of_nat :: "nat \<Rightarrow> string" where
  "string_of_nat n =
     (if n < 10 then [digit_char n] else string_of_nat (n div 10) @ [digit_char (n mod 10)])"
  by pat_completeness auto
termination
  by (relation "measure (\<lambda>n. n)") auto

declare string_of_nat.simps [simp del]

text \<open>
  \<^verbatim>\<open>nextDealId\<close>: the id is built from the counter as it stands, then the counter
  advances. The result is the id and the counter that \<^verbatim>\<open>users._seq\<close> holds afterwards.
  \<open>nextChar\<close> is the code unit of \<^verbatim>\<open>String.fromCharCode(letter.charCodeAt(0) + 1)\<close>,
  and \<^verbatim>\<open>nextChar > "Z"\<close> compares code units.
\<close>

definition nextDealId :: "seq_counter \<Rightarrow> string \<times> seq_counter" where
  "nextDealId sq =
     (let ident = CHR ''#'' # letter sq # string_of_nat (number sq);
          number' = number sq + 1
      in if number' > 9999 then
           (let nextChar = of_char (letter sq) + (1::nat)
            in if nextChar > of_char CHR ''Z'' then (ident, \<lparr>letter = CHR ''A'', number = 1000\<rparr>)
               else (ident, \<lparr>letter = char_of nextChar, number = 1000\<rparr>))
         else (ident, sq\<lparr>number := number'\<rparr>))"

text \<open>The ids of \<open>n\<close> successive calls.\<close>

fun next_ids :: "nat \<Rightarrow> seq_counter \<Rightarrow> string list" where
  "next_ids 0 sq = []"
| "next_ids (Suc n) sq = (case nextDealId sq of (ident, sq') \<Rightarrow> ident # next_ids n sq')"

text \<open>
  The rule of the counter in the words of the specification, to compare with
  \<open>nextDealId\<close>: the id is \<^verbatim>\<open>#<letter><number>\<close>; then number+=1; when the number
  exceeds 9999 it is reset to 1000 and the letter moves to the next character; a letter
  past \<open>Z\<close> wraps to \<open>A\<close> with number 1000.
\<close>

definition next_id_spec :: "seq_counter \<Rightarrow> string \<times> seq_counter" where
  "next_id_spec sq =
     (''#'' @ [letter sq] @ string_of_nat (number sq),
      if number sq + 1 \<le> 9999 then \<lparr>letter = letter sq, number = number sq + 1\<rparr>
      else if of_char (letter sq) + (1::nat) \<le> of_char CHR ''Z''
        then \<lparr>letter = char_of (of_char (letter sq) + (1::nat)), number = 1000\<rparr>
        else \<lparr>letter = CHR ''A'', number = 1000\<rparr>)"

subsection \<open>Deals, the completion log and the state\<close>

text \<open>
  A deal as the price keypad's \<^verbatim>\<open>num_done\<close> branch builds it; \<^verbatim>\<open>buyer\<close> and the
  later timestamps are absent until a handler sets them. The status is the string the
  code stores.
\<close>

record deal =
  deal_id :: string
  seller :: user_id
  buyer :: "user_id option"
  title :: string
  desc :: string
  dtype :: string
  price :: rat
  status :: string
  locked :: rat
  created_at :: string
  locked_at :: "string option"
  sent_at :: "string option"
  completed_at :: "string option"

record log_entry =
  log_id :: string
  log_seller :: user_id
  log_buyer :: "user_id option"
  log_amount :: rat
  log_title :: string
  log_desc :: string
  log_completed_at :: "string option"

text \<open>
  \<open>proto_sent\<close> is no cache of the bot: it holds what \<^verbatim>\<open>seller_sent_\<close> writes on an
  object of the prototype chain when the deal id is an inherited key, the time of
  sending by key (the status written with it is always \<^verbatim>\<open>sent_to_support\<close>). It lives
  in the memory of the process and is in no file.
\<close>

record state =
  seq :: seq_counter
  balances :: "(user_id \<times> rat) list"
  deals :: "(string \<times> deal) list"
  logs :: "(string \<times> log_entry) list"
  proto_sent :: "(string \<times> string) list"

definition state_init :: state where
  "state_init = \<lparr>seq = seq_init, balances = [], deals = [], logs = [], proto_sent = []\<rparr>"

text \<open>
  What a handler answers when it returns before changing anything. The names are those
  of the specification's taxonomy for the alerts of the code: deal not found, deal no
  longer available for purchase, not enough TON, no buyer attached, invalid price;
  \<open>Ignored\<close>, \<open>Usage\<close> and \<open>BadAmount\<close> are the three early returns of
  \<^verbatim>\<open>/givebalance\<close>. \<open>Thrown\<close> is a \<^verbatim>\<open>TypeError\<close> that the handler throws before
  it has changed or answered anything.
\<close>

datatype error =
  NotFound | InvalidState | InsufficientFunds | NoBuyer | ValidationError
  | Ignored | Usage | BadAmount | Thrown

text \<open>
  \<^verbatim>\<open>deals[dealId]\<close>. \<^verbatim>\<open>deals\<close> is a plain object, and the only keys the bot stores in
  it are generated ids. A key that is not stored but is a property of
  \<^verbatim>\<open>Object.prototype\<close> yields what is inherited, which is truthy, so that
  \<^verbatim>\<open>if (!deal)\<close> does not return:

    \<^item> for the twelve built-in keys, a function or, for \<^verbatim>\<open>__proto__\<close>, the object
      \<^verbatim>\<open>Object.prototype\<close> itself (\<open>Inherited\<close>);

    \<^item> once \<^verbatim>\<open>seller_sent_\<close> has been called with the key \<^verbatim>\<open>__proto__\<close> and so has
      written \<^verbatim>\<open>status\<close> and \<^verbatim>\<open>sent_at\<close> on \<^verbatim>\<open>Object.prototype\<close>, for these two keys
      the string written (\<open>Written\<close>).

  What is inherited has no \<^verbatim>\<open>buyer\<close>, and its \<^verbatim>\<open>status\<close> is undefined or
  \<^verbatim>\<open>sent_to_support\<close>, never \<^verbatim>\<open>open\<close>.
\<close>

definition inherited_keys :: "string list" where
  "inherited_keys =
     [''constructor'', ''__proto__'', ''hasOwnProperty'', ''isPrototypeOf'',
      ''propertyIsEnumerable'', ''toLocaleString'', ''toString'', ''valueOf'',
      ''__defineGetter__'', ''__defineSetter__'', ''__lookupGetter__'', ''__lookupSetter__'']"

datatype found = Stored deal | Inherited | Written | Missing

definition deals_get :: "state \<Rightarrow> string \<Rightarrow> found" where
  "deals_get s dealId =
     (case map_of (deals s) dealId of
        Some d \<Rightarrow> Stored d
      | None \<Rightarrow>
          if dealId \<in> set inherited_keys then Inherited
          else if dealId \<in> set [''status'', ''sent_at'']
                  \<and> map_of (proto_sent s) ''__proto__'' \<noteq> None then Written
          else Missing)"

text \<open>\<^verbatim>\<open>Number(balances[id] || 0)\<close>\<close>

definition balance_of :: "state \<Rightarrow> user_id \<Rightarrow> rat" where
  "balance_of s u = (case map_of (balances s) u of None \<Rightarrow> 0 | Some b \<Rightarrow> b)"

text \<open>
  The funds of the ledger: every balance and every locked amount, each taken as the
  8-decimal amount it prints as, added exactly.
\<close>

definition total_locked :: "state \<Rightarrow> rat" where
  "total_locked s = sum_list (map (\<lambda>kd. toFixed8 (locked (snd kd))) (deals s))"

definition total_balances :: "state \<Rightarrow> rat" where
  "total_balances s = sum_list (map (\<lambda>ub. toFixed8 (snd ub)) (balances s))"

definition total_funds :: "state \<Rightarrow> rat" where
  "total_funds s = total_balances s + total_locked s"

subsection \<open>The handlers\<close>

text \<open>
  Creating a deal, the \<^verbatim>\<open>num_done\<close> branch. \<open>typed\<close> is the decimal the seller
  typed (\<open>None\<close> when \<^verbatim>\<open>parseFloat\<close> gives \<^verbatim>\<open>NaN\<close>), \<open>priceVal\<close> the number
  \<^verbatim>\<open>parseFloat\<close> reads from it; title, description and type come from the seller's
  \<^verbatim>\<open>temp\<close> record, the type defaulting to \<^verbatim>\<open>"NFT"\<close>.
\<close>

definition num_done ::
  "state \<Rightarrow> user_id \<Rightarrow> string option \<Rightarrow> string \<Rightarrow> string \<Rightarrow> rat option \<Rightarrow> string
     \<Rightarrow> error + (string \<times> state)" where
  "num_done s userId ty ti de typed now =
     (case typed of
        None \<Rightarrow> Inl ValidationError
      | Some pv \<Rightarrow>
          let priceVal = round64 pv
          in if priceVal \<le> 0 then Inl ValidationError
          else (case nextDealId (seq s) of
                  (ident, sq') \<Rightarrow>
                    let d = \<lparr>deal_id = ident, seller = userId, buyer = None, title = ti,
                              desc = de,
                              dtype = (case ty of None \<Rightarrow> ''NFT''
                                        | Some t \<Rightarrow> if t = [] then ''NFT'' else t),
                              price = num8 priceVal, status = ''open'', locked = 0,
                              created_at = now, locked_at = None, sent_at = None,
                              completed_at = None\<rparr>
                    in Inr (ident, s\<lparr>seq := sq', deals := AList.update ident d (deals s)\<rparr>)))"

text \<open>The \<^verbatim>\<open>buy_\<close> callback: the pressing user is the buyer.\<close>

definition buy :: "state \<Rightarrow> string \<Rightarrow> user_id \<Rightarrow> string \<Rightarrow> error + state" where
  "buy s dealId userId now =
     (case deals_get s dealId of
        Missing \<Rightarrow> Inl NotFound
      | Inherited \<Rightarrow> Inl InvalidState
      | Written \<Rightarrow> Inl InvalidState
      | Stored d \<Rightarrow>
          if status d \<noteq> ''open'' then Inl InvalidState
          else
            let buyerId = userId;
                bal = balance_of s buyerId;
                pr = price d
            in if bal < pr then Inl InsufficientFunds
               else Inr (s\<lparr>balances := AList.update buyerId (num8 (minus64 bal pr)) (balances s),
                           deals := AList.update dealId
                             (d\<lparr>buyer := Some buyerId, locked := pr,
                                status := ''in_progress'', locked_at := Some now\<rparr>)
                             (deals s)\<rparr>))"

text \<open>
  The \<^verbatim>\<open>seller_sent_\<close> callback. The pressing user is not looked at. On an inherited
  function or object the status and the time are written on it and the handler answers
  as for a deal; on an inherited string the assignment throws, the file being a module
  and so in strict mode.
\<close>

definition seller_sent :: "state \<Rightarrow> string \<Rightarrow> user_id \<Rightarrow> string \<Rightarrow> error + state" where
  "seller_sent s dealId userId now =
     (case deals_get s dealId of
        Missing \<Rightarrow> Inl NotFound
      | Inherited \<Rightarrow> Inr (s\<lparr>proto_sent := AList.update dealId now (proto_sent s)\<rparr>)
      | Written \<Rightarrow> Inl Thrown
      | Stored d \<Rightarrow>
          Inr (s\<lparr>deals := AList.update dealId
                   (d\<lparr>status := ''sent_to_support'', sent_at := Some now\<rparr>) (deals s)\<rparr>))"

text \<open>\<^verbatim>\<open>!deal.buyer\<close>: no buyer, or the falsy id 0.\<close>

definition no_buyer :: "deal \<Rightarrow> bool" where
  "no_buyer d = (case buyer d of None \<Rightarrow> True | Some b \<Rightarrow> b = 0)"

text \<open>The \<^verbatim>\<open>buyer_received_\<close> callback. The pressing user is not looked at.\<close>

definition buyer_received :: "state \<Rightarrow> string \<Rightarrow> user_id \<Rightarrow> string \<Rightarrow> error + state" where
  "buyer_received s dealId userId now =
     (case deals_get s dealId of
        Missing \<Rightarrow> Inl NotFound
      | Inherited \<Rightarrow> Inl NoBuyer
      | Written \<Rightarrow> Inl NoBuyer
      | Stored d \<Rightarrow>
          if no_buyer d then Inl NoBuyer
          else
            let sellerId = seller d;
                amount = locked d;
                logEntry = \<lparr>log_id = dealId, log_seller = sellerId, log_buyer = buyer d,
                             log_amount = amount, log_title = title d, log_desc = desc d,
                             log_completed_at = Some now\<rparr>
            in Inr (s\<lparr>balances := AList.update sellerId
                          (num8 (plus64 (balance_of s sellerId) amount)) (balances s),
                        deals := AList.update dealId
                          (d\<lparr>status := ''done'', completed_at := Some now, locked := 0\<rparr>)
                          (deals s),
                        logs := AList.update dealId logEntry (logs s)\<rparr>))"

text \<open>
  The \<^verbatim>\<open>buyer_problem_\<close> callback: it only sends two messages, for a deal and for an
  inherited key alike, and answers.
\<close>

definition buyer_problem :: "state \<Rightarrow> string \<Rightarrow> user_id \<Rightarrow> error + state" where
  "buyer_problem s dealId userId =
     (case deals_get s dealId of
        Missing \<Rightarrow> Inl NotFound
      | Inherited \<Rightarrow> Inr s
      | Written \<Rightarrow> Inr s
      | Stored d \<Rightarrow> Inr s)"

text \<open>
  \<^verbatim>\<open>/givebalance [id] [amount]\<close>. \<open>owner\<close> is \<^verbatim>\<open>OWNER_ID\<close>; \<open>args\<close> is \<open>None\<close>
  when the command has fewer than three parts, else the target and the decimal typed as
  amount (\<open>None\<close> when \<^verbatim>\<open>Number(parts[2])\<close> is \<^verbatim>\<open>NaN\<close>). The target, a string in
  the code, is the user whose balance key it is; a target that is not the decimal of a
  user id is outside the model.
\<close>

definition givebalance ::
  "user_id \<Rightarrow> state \<Rightarrow> user_id \<Rightarrow> (user_id \<times> rat option) option \<Rightarrow> error + state" where
  "givebalance owner s fromId args =
     (if fromId \<noteq> owner then Inl Ignored
      else (case args of
              None \<Rightarrow> Inl Usage
            | Some (target, None) \<Rightarrow> Inl BadAmount
            | Some (target, Some typed) \<Rightarrow>
                let amt = round64 typed
                in Inr (s\<lparr>balances := AList.update target
                          (num8 (plus64 (balance_of s target) amt)) (balances s)\<rparr>)))"

subsection \<open>Sequences of operations\<close>

datatype op =
  CreateDeal user_id "string option" string string "rat option" string
  | Buy string user_id string
  | MarkSent string user_id string
  | ConfirmReceived string user_id string
  | ReportProblem string user_id
  | AdminCredit user_id "(user_id \<times> rat option) option"

fun step :: "user_id \<Rightarrow> state \<Rightarrow> op \<Rightarrow> error + state" where
  "step owner s (CreateDeal u ty ti de pv now) =
     (case num_done s u ty ti de pv now of Inl e \<Rightarrow> Inl e | Inr (ident, s') \<Rightarrow> Inr s')"
| "step owner s (Buy dealId u now) = buy s dealId u now"
| "step owner s (MarkSent dealId u now) = seller_sent s dealId u now"
| "step owner s (ConfirmReceived dealId u now) = buyer_received s dealId u now"
| "step owner s (ReportProblem dealId u) = buyer_problem s dealId u"
| "step owner s (AdminCredit u args) = givebalance owner s u args"

text \<open>
  A handler that returns early has changed nothing: the state stays. So it does when the
  handler throws; what becomes of the process after that is outside the model.
\<close>

definition exec :: "user_id \<Rightarrow> state \<Rightarrow> op \<Rightarrow> state" where
  "exec owner s x = (case step owner s x of Inl e \<Rightarrow> s | Inr s' \<Rightarrow> s')"

fun run :: "user_id \<Rightarrow> state \<Rightarrow> op list \<Rightarrow> state" where
  "run owner s [] = s"
| "run owner s (x # xs) = run owner (exec owner s x) xs"

fun is_admin :: "op \<Rightarrow> bool" where
  "is_admin (AdminCredit u args) = True"
| "is_admin x = False"

subsection \<open>Invariants of the ledger\<close>

text \<open>
  A sound ledger: every balance and every locked amount is a stored amount between 0 and
  ten million, every price is the binary64 value of a non-negative 8-decimal amount, a
  deal that is still open holds no funds, and the funds of the ledger are at most ten
  million.
\<close>

definition deal_ok :: "deal \<Rightarrow> bool" where
  "deal_ok d =
     (price_ok (price d) \<and> amount_ok (locked d) \<and> (status d = ''open'' \<longrightarrow> locked d = 0))"

definition ledger_ok :: "state \<Rightarrow> bool" where
  "ledger_ok s =
     (list_all (\<lambda>ub. amount_ok (snd ub)) (balances s)
      \<and> list_all (\<lambda>kd. deal_ok (snd kd)) (deals s)
      \<and> total_funds s \<le> 10000000)"

text \<open>Every stored amount is the binary64 value of an 8-decimal amount.\<close>

definition stored_ok :: "state \<Rightarrow> bool" where
  "stored_ok s =
     (list_all (\<lambda>ub. stored8 (snd ub)) (balances s)
      \<and> list_all (\<lambda>kd. stored8 (price (snd kd)) \<and> stored8 (locked (snd kd))) (deals s))"

text \<open>No balance, price or locked amount is negative.\<close>

definition nonneg_ok :: "state \<Rightarrow> bool" where
  "nonneg_ok s =
     (list_all (\<lambda>ub. 0 \<le> snd ub) (balances s)
      \<and> list_all (\<lambda>kd. 0 \<le> price (snd kd) \<and> 0 \<le> locked (snd kd)) (deals s))"

text \<open>An operation that is not a \<^verbatim>\<open>/givebalance\<close> with a negative amount.\<close>

fun nonneg_credit :: "op \<Rightarrow> bool" where
  "nonneg_credit (AdminCredit u (Some (target, Some amt))) = (0 \<le> amt)"
| "nonneg_credit x = True"

text \<open>
  A deal creation that stores its deal under an id the deal store already holds: the
  assignment \<^verbatim>\<open>deals[id] = deal\<close> then replaces the stored deal.
\<close>

fun reuses_id :: "state \<Rightarrow> op \<Rightarrow> bool" where
  "reuses_id s (CreateDeal u ty ti de pv now) =
     (case num_done s u ty ti de pv now of
        Inl e \<Rightarrow> False
      | Inr (ident, s') \<Rightarrow> map_of (deals s) ident \<noteq> None)"
| "reuses_id s x = False"

fun no_id_reuse :: "user_id \<Rightarrow> state \<Rightarrow> op list \<Rightarrow> bool" where
  "no_id_reuse owner s [] = True"
| "no_id_reuse owner s (x # xs) = (\<not> reuses_id s x \<and> no_id_reuse owner (exec owner s x) xs)"

subsection \<open>A deal through its life\<close>

text \<open>
  The deal of the specification's scenarios: seller 1 offers \<^verbatim>\<open>Golden Gift\<close> for
  12.5; user 2 holds 20, user 3 holds 5. The states are those after the creation, after
  user 2 bought, after the seller marked the gift sent, and after the confirmation.
\<close>

definition golden :: deal where
  "golden = \<lparr>deal_id = ''#A7342'', seller = 1, buyer = None, title = ''Golden Gift'',
     desc = ''rare'', dtype = ''NFT'', price = 25 / 2, status = ''open'', locked = 0,
     created_at = ''t0'', locked_at = None, sent_at = None, completed_at = None\<rparr>"

definition s_open :: state where
  "s_open = \<lparr>seq = \<lparr>letter = CHR ''A'', number = 7343\<rparr>, balances = [(2, 20), (3, 5)],
     deals = [(''#A7342'', golden)], logs = [], proto_sent = []\<rparr>"

definition s_bought :: state where
  "s_bought = s_open\<lparr>balances := [(2, 15 / 2), (3, 5)],
     deals := [(''#A7342'', golden\<lparr>buyer := Some 2, locked := 25 / 2,
                 status := ''in_progress'', locked_at := Some ''t1''\<rparr>)]\<rparr>"

definition s_sent :: state where
  "s_sent = s_bought\<lparr>deals := [(''#A7342'', golden\<lparr>buyer := Some 2, locked := 25 / 2,
                 status := ''sent_to_support'', locked_at := Some ''t1'',
                 sent_at := Some ''t2''\<rparr>)]\<rparr>"

definition s_done :: state where
  "s_done = s_sent\<lparr>balances := [(2, 15 / 2), (3, 5), (1, 25 / 2)],
     deals := [(''#A7342'', golden\<lparr>buyer := Some 2, locked := 0,
                 status := ''done'', locked_at := Some ''t1'',
                 sent_at := Some ''t2'', completed_at := Some ''t3''\<rparr>)],
     logs := [(''#A7342'', \<lparr>log_id = ''#A7342'', log_seller = 1, log_buyer = Some 2,
                 log_amount = 25 / 2, log_title = ''Golden Gift'', log_desc = ''rare'',
                 log_completed_at = Some ''t3''\<rparr>)]\<rparr>"

text \<open>The state after a second confirmation of the same deal, at time \<^verbatim>\<open>t4\<close>.\<close>

definition s_done_again :: state where
  "s_done_again = s_done\<lparr>
     deals := [(''#A7342'', golden\<lparr>buyer := Some 2, locked := 0,
                 status := ''done'', locked_at := Some ''t1'',
                 sent_at := Some ''t2'', completed_at := Some ''t4''\<rparr>)],
     logs := [(''#A7342'', \<lparr>log_id = ''#A7342'', log_seller = 1, log_buyer = Some 2,
                 log_amount = 0, log_title = ''Golden Gift'', log_desc = ''rare'',
                 log_completed_at = Some ''t4''\<rparr>)]\<rparr>"

text \<open>
  The state when the deal is confirmed at time \<^verbatim>\<open>t3\<close> right after the purchase,
  before the seller marked anything sent.
\<close>

definition s_done_early :: state where
  "s_done_early = s_bought\<lparr>balances := [(2, 15 / 2), (3, 5), (1, 25 / 2)],
     deals := [(''#A7342'', golden\<lparr>buyer := Some 2, locked := 0,
                 status := ''done'', locked_at := Some ''t1'',
                 completed_at := Some ''t3''\<rparr>)],
     logs := [(''#A7342'', \<lparr>log_id = ''#A7342'', log_seller = 1, log_buyer = Some 2,
                 log_amount = 25 / 2, log_title = ''Golden Gift'', log_desc = ''rare'',
                 log_completed_at = Some ''t3''\<rparr>)]\<rparr>"

subsection \<open>The counter coming round\<close>

text \<open>The counter after one call of \<^verbatim>\<open>nextDealId\<close>.\<close>

definition advance :: "seq_counter \<Rightarrow> seq_counter" where
  "advance sq = snd (nextDealId sq)"

text \<open>
  A run that takes the counter once round: users 2 and 3 hold 20 and 5; the seller
  creates the deal \<^verbatim>\<open>#A7342\<close>, user 2 buys it, and 234000 further deals are created,
  the last of which is issued the id \<^verbatim>\<open>#A7342\<close> again.
\<close>

definition wrap_start :: state where
  "wrap_start = state_init\<lparr>balances := [(2, 20), (3, 5)]\<rparr>"

definition another :: op where
  "another = CreateDeal 1 None ''gift'' ''another'' (Some 1) ''t2''"

definition wrap_ops :: "op list" where
  "wrap_ops =
     CreateDeal 1 (Some ''NFT'') ''Golden Gift'' ''rare'' (Some (25 / 2)) ''t0''
     # Buy ''#A7342'' 2 ''t1''
     # replicate 233999 another @ [another]"

text \<open>
  Creating further deals leaves the balances alone, moves the counter, keeps the ids in
  the deal store distinct, and adds only deals that hold no funds.
\<close>

definition only_old_locked :: "(string \<times> deal) list \<Rightarrow> state \<Rightarrow> bool" where
  "only_old_locked old s =
     (distinct (map fst (deals s)) \<and> (\<forall>kd \<in> set (deals s). kd \<in> set old \<or> locked (snd kd) = 0))"

subsection \<open>A ledger with a billion\<close>

text \<open>
  Users 1 and 2 hold a billion each, and seller 1 offers a deal for 0.00000001: the
  stored price \<open>dust\<close> is the binary64 value of that amount. The states are those
  after the creation and after user 2 bought.
\<close>

definition dust :: rat where
  "dust = num8 (round64 (1 / 100000000))"

definition s_big_open :: state where
  "s_big_open = \<lparr>seq = \<lparr>letter = CHR ''A'', number = 7343\<rparr>,
     balances = [(2, 1000000000), (1, 1000000000)],
     deals = [(''#A7342'', golden\<lparr>price := dust\<rparr>)], logs = [], proto_sent = []\<rparr>"

definition s_big_bought :: state where
  "s_big_bought = s_big_open\<lparr>
     deals := [(''#A7342'', golden\<lparr>price := dust, buyer := Some 2, locked := dust,
                 status := ''in_progress'', locked_at := Some ''t1''\<rparr>)]\<rparr>"

text \<open>The state after user 2 confirmed the receipt at time \<^verbatim>\<open>t3\<close>.\<close>

definition s_big_done :: state where
  "s_big_done = s_big_bought\<lparr>
     deals := [(''#A7342'', golden\<lparr>price := dust, buyer := Some 2, locked := 0,
                 status := ''done'', locked_at := Some ''t1'', completed_at := Some ''t3''\<rparr>)],
     logs := [(''#A7342'', \<lparr>log_id = ''#A7342'', log_seller = 1, log_buyer = Some 2,
                 log_amount = dust, log_title = ''Golden Gift'', log_desc = ''rare'',
                 log_completed_at = Some ''t3''\<rparr>)]\<rparr>"

section \<open>The deal id sequence\<close>

subsection \<open>Decimal digits and their order\<close>

lemma string_of_nat_small: "n < 10 \<Longrightarrow> string_of_nat n = [digit_char n]"
  by (simp add: string_of_nat.simps)

lemma string_of_nat_big:
  "10 \<le> n \<Longrightarrow> string_of_nat n = string_of_nat (n div 10) @ [digit_char (n mod 10)]"
  by (subst string_of_nat.simps) simp

lemma digit_char_less: "a < 10 \<Longrightarrow> b < 10 \<Longrightarrow> digit_char a < digit_char b \<longleftrightarrow> a < b"
  by (simp add: digit_char_def less_char_def)

lemma digit_char_eq: "a < 10 \<Longrightarrow> b < 10 \<Longrightarrow> digit_char a = digit_char b \<longleftrightarrow> a = b"
  by (simp add: digit_char_def)

lemma string_of_nat_nonempty: "string_of_nat n \<noteq> []"
  by (subst string_of_nat.simps) simp

lemma length_string_of_nat_1: "length (string_of_nat n) = Suc 0 \<longleftrightarrow> n < 10"
proof (cases "n < 10")
  case True
  then show ?thesis by (simp add: string_of_nat_small)
next
  case False
  then have "string_of_nat n = string_of_nat (n div 10) @ [digit_char (n mod 10)]"
    by (intro string_of_nat_big) simp
  with False show ?thesis
    using string_of_nat_nonempty [of "n div 10"] by simp
qed

lemma append_snoc_less:
  fixes xs ys :: "'a::linorder list"
  assumes "length xs = length ys"
  shows "xs @ [a] < ys @ [b] \<longleftrightarrow> xs < ys \<or> (xs = ys \<and> a < b)"
  using assms by (induction xs ys rule: list_induct2) auto

lemma div_mod_eq_lemma: "(m::nat) div 10 = n div 10 \<Longrightarrow> m mod 10 = n mod 10 \<Longrightarrow> m = n"
  by (metis div_mult_mod_eq)

lemma div_mod_less_lemma:
  "((m::nat) div 10 < n div 10 \<or> (m div 10 = n div 10 \<and> m mod 10 < n mod 10)) \<longleftrightarrow> m < n"
proof -
  define a b c d where "a = m div 10" and "b = m mod 10" and "c = n div 10" and "d = n mod 10"
  have m: "m = 10 * a + b" and n: "n = 10 * c + d" and "b < 10" and "d < 10"
    by (simp_all add: a_def b_def c_def d_def)
  then have "(a < c \<or> (a = c \<and> b < d)) \<longleftrightarrow> m < n" by linarith
  then show ?thesis by (simp only: a_def b_def c_def d_def)
qed

lemma string_of_nat_inj: "string_of_nat m = string_of_nat n \<Longrightarrow> m = n"
proof (induction m arbitrary: n rule: string_of_nat.induct)
  case (1 m)
  show ?case
  proof (cases "m < 10")
    case True
    then have "length (string_of_nat m) = Suc 0"
      by (simp only: length_string_of_nat_1)
    with "1.prems" have "length (string_of_nat n) = Suc 0"
      by simp
    then have "n < 10"
      by (simp only: length_string_of_nat_1)
    with True "1.prems" show ?thesis
      by (simp add: string_of_nat_small digit_char_eq)
  next
    case False
    then have "length (string_of_nat m) \<noteq> Suc 0"
      by (simp only: length_string_of_nat_1 not_False_eq_True)
    with "1.prems" have "length (string_of_nat n) \<noteq> Suc 0"
      by simp
    then have n: "\<not> n < 10"
      by (simp only: length_string_of_nat_1 not_False_eq_True)
    from False have bm: "string_of_nat m = string_of_nat (m div 10) @ [digit_char (m mod 10)]"
      by (intro string_of_nat_big) simp
    from n have bn: "string_of_nat n = string_of_nat (n div 10) @ [digit_char (n mod 10)]"
      by (intro string_of_nat_big) simp
    from "1.prems" have "string_of_nat (m div 10) = string_of_nat (n div 10)"
      and d: "digit_char (m mod 10) = digit_char (n mod 10)"
      unfolding bm bn by simp_all
    with False "1.IH" have "m div 10 = n div 10" by simp
    moreover from d have "m mod 10 = n mod 10" by (simp add: digit_char_eq)
    ultimately show ?thesis by (rule div_mod_eq_lemma)
  qed
qed

lemma string_of_nat_less:
  "length (string_of_nat m) = length (string_of_nat n) \<Longrightarrow>
     string_of_nat m < string_of_nat n \<longleftrightarrow> m < n"
proof (induction m arbitrary: n rule: string_of_nat.induct)
  case (1 m)
  show ?case
  proof (cases "m < 10")
    case True
    then have "length (string_of_nat m) = Suc 0"
      by (simp only: length_string_of_nat_1)
    with "1.prems" have "length (string_of_nat n) = Suc 0"
      by simp
    then have "n < 10"
      by (simp only: length_string_of_nat_1)
    with True show ?thesis
      by (simp add: string_of_nat_small digit_char_less)
  next
    case False
    then have "length (string_of_nat m) \<noteq> Suc 0"
      by (simp only: length_string_of_nat_1 not_False_eq_True)
    with "1.prems" have "length (string_of_nat n) \<noteq> Suc 0"
      by simp
    then have n: "\<not> n < 10"
      by (simp only: length_string_of_nat_1 not_False_eq_True)
    from False have bm: "string_of_nat m = string_of_nat (m div 10) @ [digit_char (m mod 10)]"
      by (intro string_of_nat_big) simp
    from n have bn: "string_of_nat n = string_of_nat (n div 10) @ [digit_char (n mod 10)]"
      by (intro string_of_nat_big) simp
    from "1.prems" have len: "length (string_of_nat (m div 10)) = length (string_of_nat (n div 10))"
      unfolding bm bn by simp
    with False "1.IH" have ih: "string_of_nat (m div 10) < string_of_nat (n div 10) \<longleftrightarrow> m div 10 < n div 10"
      by simp
    have eq: "string_of_nat (m div 10) = string_of_nat (n div 10) \<longleftrightarrow> m div 10 = n div 10"
      using string_of_nat_inj by auto
    have "string_of_nat m < string_of_nat n \<longleftrightarrow>
            m div 10 < n div 10 \<or> (m div 10 = n div 10 \<and> m mod 10 < n mod 10)"
      unfolding bm bn using len by (simp add: append_snoc_less ih eq digit_char_less)
    also have "\<dots> \<longleftrightarrow> m < n" by (rule div_mod_less_lemma)
    finally show ?thesis .
  qed
qed

lemma length_string_of_nat4: "1000 \<le> k \<Longrightarrow> k < 10000 \<Longrightarrow> length (string_of_nat k) = 4"
proof -
  assume k: "1000 \<le> k" "k < 10000"
  then have a: "10 \<le> k" and b: "10 \<le> k div 10" and c: "10 \<le> k div 10 div 10"
    and d: "k div 10 div 10 div 10 < 10"
    by simp_all
  show ?thesis
    by (simp add: string_of_nat_big [OF a] string_of_nat_big [OF b] string_of_nat_big [OF c]
        string_of_nat_small [OF d])
qed

lemma next_ids_same_letter:
  "number sq + n \<le> 10000 \<Longrightarrow>
     next_ids n sq = map (\<lambda>k. CHR ''#'' # letter sq # string_of_nat k) [number sq ..< number sq + n]"
proof (induction n arbitrary: sq)
  case 0
  then show ?case by simp
next
  case (Suc n)
  from Suc.prems have lt: "number sq < number sq + Suc n" and le: "number sq + 1 \<le> 9999 \<or> n = 0"
    by auto
  have "[number sq ..< number sq + Suc n] = number sq # [Suc (number sq) ..< Suc (number sq) + n]"
    using upt_conv_Cons [OF lt] by simp
  moreover have "next_ids (Suc n) sq =
      (CHR ''#'' # letter sq # string_of_nat (number sq)) # next_ids n (snd (nextDealId sq))"
    by (simp add: nextDealId_def Let_def)
  moreover have "next_ids n (snd (nextDealId sq)) =
      map (\<lambda>k. CHR ''#'' # letter sq # string_of_nat k) [Suc (number sq) ..< Suc (number sq) + n]"
  proof (cases "n = 0")
    case True
    then show ?thesis by simp
  next
    case False
    with le have "snd (nextDealId sq) = sq\<lparr>number := Suc (number sq)\<rparr>"
      by (simp add: nextDealId_def Let_def)
    with Suc.IH [of "sq\<lparr>number := Suc (number sq)\<rparr>"] Suc.prems show ?thesis by simp
  qed
  ultimately show ?case by (simp only: list.map)
qed

lemma ids_number_sorted:
  assumes "1000 \<le> a" and "b \<le> 10000"
  shows "sorted_wrt (<) (map (\<lambda>k. CHR ''#'' # l # string_of_nat k) [a ..< b])"
proof -
  have "sorted_wrt (\<lambda>j k. CHR ''#'' # l # string_of_nat j < CHR ''#'' # l # string_of_nat k) [a ..< b]"
  proof (rule sorted_wrt_mono_rel [of _ "(<)"])
    fix j k assume "j \<in> set [a ..< b]" "k \<in> set [a ..< b]" "j < k"
    with assms have "length (string_of_nat j) = length (string_of_nat k)"
      by (simp add: length_string_of_nat4)
    with \<open>j < k\<close> show "CHR ''#'' # l # string_of_nat j < CHR ''#'' # l # string_of_nat k"
      by (simp add: string_of_nat_less)
  qed simp
  then show ?thesis by (simp add: sorted_wrt_map)
qed

subsection \<open>The ids the counter issues\<close>

lemma nextDealId_refines_spec: "nextDealId sq = next_id_spec sq"
  by (simp add: nextDealId_def next_id_spec_def Let_def not_less not_le)

lemma string_of_nat_9999: "string_of_nat 9999 = ''9999''"
  by (simp add: string_of_nat_small string_of_nat_big digit_char_def char_of_eq_iff)

lemma string_of_nat_7342: "string_of_nat 7342 = ''7342''"
  by (simp add: string_of_nat_small string_of_nat_big digit_char_def char_of_eq_iff)

lemma string_of_nat_1000: "string_of_nat 1000 = ''1000''"
  by (simp add: string_of_nat_small string_of_nat_big digit_char_def char_of_eq_iff)

lemma nextDealId_init: "nextDealId seq_init = (''#A7342'', \<lparr>letter = CHR ''A'', number = 7343\<rparr>)"
  by (simp add: nextDealId_def seq_init_def string_of_nat_7342)

lemma nextDealId_A9999:
  "nextDealId \<lparr>letter = CHR ''A'', number = 9999\<rparr> =
     (''#A9999'', \<lparr>letter = CHR ''B'', number = 1000\<rparr>)"
  by (simp add: nextDealId_def string_of_nat_9999 char_of_eq_iff)

lemma nextDealId_B1000:
  "nextDealId \<lparr>letter = CHR ''B'', number = 1000\<rparr> =
     (''#B1000'', \<lparr>letter = CHR ''B'', number = 1001\<rparr>)"
  by (simp add: nextDealId_def string_of_nat_1000)

lemma nextDealId_Z9999:
  "nextDealId \<lparr>letter = CHR ''Z'', number = 9999\<rparr> =
     (''#Z9999'', \<lparr>letter = CHR ''A'', number = 1000\<rparr>)"
  by (simp add: nextDealId_def string_of_nat_9999)

lemma next_ids_A9999:
  "next_ids 1000 \<lparr>letter = CHR ''A'', number = 9999\<rparr> =
     ''#A9999'' # map (\<lambda>k. CHR ''#'' # CHR ''B'' # string_of_nat k) [1000 ..< 1999]"
proof -
  have "next_ids 1000 \<lparr>letter = CHR ''A'', number = 9999\<rparr> =
      ''#A9999'' # next_ids 999 \<lparr>letter = CHR ''B'', number = 1000\<rparr>"
    using next_ids.simps(2) [of 999 "\<lparr>letter = CHR ''A'', number = 9999\<rparr>"]
    by (simp add: nextDealId_A9999)
  moreover have "next_ids 999 \<lparr>letter = CHR ''B'', number = 1000\<rparr> =
      map (\<lambda>k. CHR ''#'' # CHR ''B'' # string_of_nat k) [1000 ..< 1000 + 999]"
    using next_ids_same_letter [of "\<lparr>letter = CHR ''B'', number = 1000\<rparr>" 999]
    by (simp del: upt_rec_numeral)
  ultimately show ?thesis
    by (simp del: upt_rec_numeral)
qed

lemma next_ids_A9999_sorted:
  "sorted_wrt (<) (next_ids 1000 \<lparr>letter = CHR ''A'', number = 9999\<rparr>)"
proof -
  have "sorted_wrt (<) (map (\<lambda>k. CHR ''#'' # CHR ''B'' # string_of_nat k) [1000 ..< 1999])"
    by (rule ids_number_sorted) simp_all
  moreover have "''#A9999'' < CHR ''#'' # CHR ''B'' # string_of_nat k" for k
    by simp
  ultimately show ?thesis
    by (simp add: next_ids_A9999 del: upt_rec_numeral)
qed

text \<open>
  C8, as the code has it. The first id of the bot is \<^verbatim>\<open>#A7342\<close>. Every call returns
  \<^verbatim>\<open>#<letter><number>\<close> for the counter as it stands and advances it by the rule
  of the specification (number+=1; past 9999 the number restarts at 1000 on the next
  letter; past \<open>Z\<close> the letter wraps to \<open>A\<close>). At the counter \<open>{A, 9999}\<close> the call
  issues \<^verbatim>\<open>#A9999\<close> and leaves \<open>{B, 1000}\<close>, so the id that follows is
  \<^verbatim>\<open>#B1000\<close>; the 1000 ids issued from \<open>{A, 9999}\<close> are strictly increasing as
  strings, and so pairwise different.
\<close>

theorem C8_sequence_generator:
  "fst (nextDealId (seq state_init)) = ''#A7342''
   \<and> nextDealId sq = next_id_spec sq
   \<and> nextDealId \<lparr>letter = CHR ''A'', number = 9999\<rparr>
         = (''#A9999'', \<lparr>letter = CHR ''B'', number = 1000\<rparr>)
   \<and> fst (nextDealId \<lparr>letter = CHR ''B'', number = 1000\<rparr>) = ''#B1000''
   \<and> nextDealId \<lparr>letter = CHR ''Z'', number = 9999\<rparr>
         = (''#Z9999'', \<lparr>letter = CHR ''A'', number = 1000\<rparr>)
   \<and> take 2 (next_ids 1000 \<lparr>letter = CHR ''A'', number = 9999\<rparr>) = [''#A9999'', ''#B1000'']
   \<and> length (next_ids 1000 \<lparr>letter = CHR ''A'', number = 9999\<rparr>) = 1000
   \<and> sorted_wrt (<) (next_ids 1000 \<lparr>letter = CHR ''A'', number = 9999\<rparr>)
   \<and> distinct (next_ids 1000 \<lparr>letter = CHR ''A'', number = 9999\<rparr>)"
proof -
  have "take 2 (next_ids 1000 \<lparr>letter = CHR ''A'', number = 9999\<rparr>) = [''#A9999'', ''#B1000'']"
  proof -
    have "[1000 ..< 1999] = 1000 # [1001 ..< 1999]"
      by (subst upt_rec) simp
    then show ?thesis
      by (simp add: next_ids_A9999 string_of_nat_1000 del: upt_rec_numeral)
  qed
  moreover have "length (next_ids 1000 \<lparr>letter = CHR ''A'', number = 9999\<rparr>) = 1000"
    by (simp add: next_ids_A9999 del: upt_rec_numeral)
  moreover have "distinct (next_ids 1000 \<lparr>letter = CHR ''A'', number = 9999\<rparr>)"
    using next_ids_A9999_sorted strict_sorted_iff by blast
  ultimately show ?thesis
    using next_ids_A9999_sorted
    by (simp add: state_init_def nextDealId_init nextDealId_refines_spec [symmetric]
        nextDealId_A9999 nextDealId_B1000 nextDealId_Z9999)
qed

text \<open>
  At the counter \<open>{A, 9999}\<close> the id issued is \<^verbatim>\<open>#A9999\<close>, not \<^verbatim>\<open>#B1000\<close>:
  the id is built before the counter advances.
\<close>

theorem C8_sequence_generator_counterexample:
  "fst (nextDealId \<lparr>letter = CHR ''A'', number = 9999\<rparr>) = ''#A9999''
   \<and> fst (nextDealId \<lparr>letter = CHR ''A'', number = 9999\<rparr>) \<noteq> ''#B1000''"
  by (simp add: nextDealId_A9999)

section \<open>Numbers\<close>

lemma is8_iff: "is8 x \<longleftrightarrow> (\<exists>n::int. x * 100000000 = of_int n)"
  unfolding is8_def by (metis floor_of_int)

subsection \<open>The binary exponent\<close>

lemma ilog2_estimate:
  assumes "0 < x" and "quotient_of x = (p, q)"
  shows "2 powi (bitlen p - bitlen q - 1) < x" and "x < 2 powi (bitlen p - bitlen q + 1)"
proof -
  from assms(2) have q: "0 < q" and x: "x = of_int p / of_int q"
    by (simp_all add: quotient_of_denom_pos quotient_of_div)
  with assms(1) have p: "0 < p"
    by (simp add: zero_less_divide_iff)
  from bitlen_bounds [OF p] have "(2::int) ^ nat (bitlen p - 1) \<le> p" and "p < 2 ^ nat (bitlen p)"
    by simp_all
  then have "of_int ((2::int) ^ nat (bitlen p - 1)) \<le> (of_int p :: rat)"
    and "(of_int p :: rat) < of_int (2 ^ nat (bitlen p))"
    by (simp_all only: of_int_le_iff of_int_less_iff)
  moreover from p have "1 \<le> bitlen p"
    using bitlen_eq_zero_iff [of p] bitlen_nonneg [of p] by linarith
  ultimately have pl: "2 powi (bitlen p - 1) \<le> (of_int p :: rat)"
    and pu: "(of_int p :: rat) < 2 powi bitlen p"
    by (simp_all add: power_int_def)
  from bitlen_bounds [OF q] have "(2::int) ^ nat (bitlen q - 1) \<le> q" and "q < 2 ^ nat (bitlen q)"
    by simp_all
  then have "of_int ((2::int) ^ nat (bitlen q - 1)) \<le> (of_int q :: rat)"
    and "(of_int q :: rat) < of_int (2 ^ nat (bitlen q))"
    by (simp_all only: of_int_le_iff of_int_less_iff)
  moreover from q have "1 \<le> bitlen q"
    using bitlen_eq_zero_iff [of q] bitlen_nonneg [of q] by linarith
  ultimately have ql: "2 powi (bitlen q - 1) \<le> (of_int q :: rat)"
    and qu: "(of_int q :: rat) < 2 powi bitlen q"
    by (simp_all add: power_int_def)
  have "2 powi (bitlen p - bitlen q - 1) = (2::rat) powi (bitlen p - 1) / 2 powi bitlen q"
    using power_int_diff [of "2::rat" "bitlen p - 1" "bitlen q"] by (simp add: algebra_simps)
  also have "\<dots> < of_int p / of_int q"
    by (rule frac_less2) (use pl qu q in simp_all)
  finally show "2 powi (bitlen p - bitlen q - 1) < x"
    by (simp add: x)
  have "x = of_int p / of_int q" by (rule x)
  also have "\<dots> < 2 powi bitlen p / 2 powi (bitlen q - 1)"
    by (rule frac_less) (use pu ql p in simp_all)
  also have "\<dots> = (2::rat) powi (bitlen p - bitlen q + 1)"
    using power_int_diff [of "2::rat" "bitlen p" "bitlen q - 1"] by (simp add: algebra_simps)
  finally show "x < 2 powi (bitlen p - bitlen q + 1)" .
qed

lemma ilog2_bounds:
  assumes "0 < x"
  shows "2 powi ilog2 x \<le> x" and "x < 2 powi (ilog2 x + 1)"
proof -
  obtain p q where pq: "quotient_of x = (p, q)"
    by (cases "quotient_of x")
  note est = ilog2_estimate [OF assms pq]
  show "2 powi ilog2 x \<le> x"
    using est(1) by (simp add: ilog2_def pq Let_def)
  show "x < 2 powi (ilog2 x + 1)"
    using est(2) by (auto simp: ilog2_def pq Let_def not_le)
qed


subsection \<open>Rounding to an integer, ties to even\<close>

lemma round_even_aux:
  fixes f :: int and y :: rat
  assumes "of_int f \<le> y" and "y < of_int f + 1"
  shows "\<bar>of_int (if y - of_int f < 1 / 2 then f
                 else if 1 / 2 < y - of_int f then f + 1
                 else if even f then f else f + 1) - y\<bar> \<le> 1 / 2"
  using assms by (auto simp: abs_le_iff)

lemma round_even_err: "\<bar>of_int (round_even y) - y\<bar> \<le> 1 / 2"
  unfolding round_even_def Let_def
  by (rule round_even_aux) (use floor_correct [of y] in simp_all)

lemma round_even_ge: "of_int m \<le> y \<Longrightarrow> m \<le> round_even y"
proof -
  assume "of_int m \<le> y"
  then have "m \<le> \<lfloor>y\<rfloor>" by (simp add: le_floor_iff)
  then show ?thesis
    unfolding round_even_def Let_def by auto
qed

lemma round_even_le_aux:
  fixes f m :: int and y :: rat
  assumes "of_int f \<le> y" and "y \<le> of_int m"
  shows "(if y - of_int f < 1 / 2 then f
          else if 1 / 2 < y - of_int f then f + 1
          else if even f then f else f + 1) \<le> m"
proof (cases "y = of_int f")
  case True
  with assms show ?thesis by simp
next
  case False
  with assms(1) have "of_int f < y" by simp
  from this assms(2) have "(of_int f :: rat) < of_int m" by (rule less_le_trans)
  then have "f < m" by (simp only: of_int_less_iff)
  then show ?thesis by simp
qed

lemma round_even_le: "y \<le> of_int m \<Longrightarrow> round_even y \<le> m"
  unfolding round_even_def Let_def
  by (rule round_even_le_aux) simp_all


subsection \<open>Rounding to binary64\<close>

lemma round64_0: "round64 0 = 0"
  by (simp add: round64_def)

lemma round64_nonneg: "0 \<le> x \<Longrightarrow> 0 \<le> round64 x"
  using round_even_ge [of 0] by (simp add: round64_def Let_def)

lemma round64_nonpos: "x \<le> 0 \<Longrightarrow> round64 x \<le> 0"
proof -
  assume x: "x \<le> 0"
  have "round_even (x / 2 powi e) \<le> 0" for e
    by (rule round_even_le) (use x in \<open>simp add: divide_nonpos_pos\<close>)
  then show ?thesis
    by (simp add: round64_def Let_def mult_nonpos_nonneg)
qed

lemma round64_err:
  assumes "\<bar>x\<bar> < 16777216"
  shows "\<bar>round64 x - x\<bar> \<le> 1 / 1073741824"
proof (cases "x = 0")
  case True
  then show ?thesis by (simp add: round64_0)
next
  case False
  define e where "e = max (ilog2 \<bar>x\<bar>) (- 1022)"
  define q :: rat where "q = 2 powi (e - 52)"
  have "ilog2 \<bar>x\<bar> < 24"
  proof (rule ccontr)
    assume "\<not> ilog2 \<bar>x\<bar> < 24"
    then have "(2::rat) powi 24 \<le> 2 powi ilog2 \<bar>x\<bar>"
      by (intro power_int_increasing) simp_all
    with ilog2_bounds(1) [of "\<bar>x\<bar>"] False assms show False by simp
  qed
  then have "e - 52 \<le> - 29" by (simp add: e_def)
  then have "q \<le> 2 powi (- 29)"
    unfolding q_def by (intro power_int_increasing) simp_all
  then have q29: "q \<le> 1 / 536870912"
    by (simp add: power_int_minus)
  have q0: "0 < q" by (simp add: q_def)
  have "round64 x - x = (of_int (round_even (x / q)) - x / q) * q"
    using False q0 by (simp add: round64_def Let_def e_def q_def algebra_simps)
  then have "\<bar>round64 x - x\<bar> = \<bar>of_int (round_even (x / q)) - x / q\<bar> * q"
    using q0 by (simp add: abs_mult)
  also have "\<dots> \<le> (1 / 2) * q"
    using round_even_err [of "x / q"] q0 by (intro mult_right_mono) simp_all
  also have "\<dots> \<le> (1 / 2) * (1 / 536870912)"
    using q29 by (intro mult_left_mono) simp_all
  finally show ?thesis by simp
qed

lemma round64_lower:
  assumes "0 < x" and "- 1022 \<le> ilog2 x"
  shows "2 powi ilog2 x \<le> round64 x"
proof -
  define e where "e = ilog2 x"
  define q :: rat where "q = 2 powi (e - 52)"
  have q0: "0 < q" by (simp add: q_def)
  have "2 powi e = (2::rat) powi 52 * q"
    unfolding q_def using power_int_add [of "2::rat" 52 "e - 52"] by simp
  then have e52: "(2::rat) powi e = 4503599627370496 * q" by simp
  with ilog2_bounds(1) [OF assms(1)] have "4503599627370496 * q \<le> x"
    by (simp add: e_def)
  then have "of_int 4503599627370496 \<le> x / q"
    using q0 by (simp add: pos_le_divide_eq)
  then have "4503599627370496 \<le> round_even (x / q)"
    by (rule round_even_ge)
  then have "(of_int 4503599627370496 :: rat) \<le> of_int (round_even (x / q))"
    by (simp only: of_int_le_iff)
  then have "4503599627370496 * q \<le> of_int (round_even (x / q)) * q"
    using q0 by (intro mult_right_mono) simp_all
  moreover have "round64 x = of_int (round_even (x / q)) * q"
    using assms by (simp add: round64_def Let_def q_def e_def max_def)
  ultimately show ?thesis
    by (simp add: e52 e_def [symmetric])
qed


subsection \<open>Rounding to 8 decimals\<close>

lemma toFixed8_near:
  assumes "is8 t" and "\<bar>x - t\<bar> < 1 / 200000000"
  shows "toFixed8 x = t"
proof -
  from assms(1) obtain n :: int where n: "t * 100000000 = of_int n"
    unfolding is8_iff by blast
  then have t: "t = of_int n / 100000000" by simp
  from assms(2) have d: "\<bar>x * 100000000 - of_int n\<bar> < 1 / 2"
    unfolding t by (simp add: abs_less_iff field_simps)
  from d have d1: "of_int n - 1 / 2 < x * 100000000" and d2: "x * 100000000 < of_int n + 1 / 2"
    by linarith+
  show ?thesis
  proof (cases "x < 0")
    case True
    have "\<lfloor>(- x) * 100000000 + 1 / 2\<rfloor> = - n"
    proof (rule floor_unique)
      show "of_int (- n) \<le> - x * 100000000 + 1 / 2"
        using d2 by simp
      show "- x * 100000000 + 1 / 2 < of_int (- n) + 1"
        using d1 by simp
    qed
    with True show ?thesis by (simp add: toFixed8_def t)
  next
    case False
    have "\<lfloor>x * 100000000 + 1 / 2\<rfloor> = n"
    proof (rule floor_unique)
      show "of_int n \<le> x * 100000000 + 1 / 2"
        using d1 by simp
      show "x * 100000000 + 1 / 2 < of_int n + 1"
        using d2 by simp
    qed
    with False show ?thesis by (simp add: toFixed8_def t)
  qed
qed



subsection \<open>Amounts of at most ten million\<close>

lemma is8_toFixed8: "is8 (toFixed8 x)"
proof (cases "x < 0")
  case True
  then have "toFixed8 x * 100000000 = of_int (- \<lfloor>(- x) * 100000000 + 1 / 2\<rfloor>)"
    by (simp add: toFixed8_def)
  then show ?thesis unfolding is8_iff by blast
next
  case False
  then have "toFixed8 x * 100000000 = of_int \<lfloor>x * 100000000 + 1 / 2\<rfloor>"
    by (simp add: toFixed8_def)
  then show ?thesis unfolding is8_iff by blast
qed

lemma toFixed8_nonneg: "0 \<le> x \<Longrightarrow> 0 \<le> toFixed8 x"
  by (simp add: toFixed8_def)

lemma is8_add: "is8 x \<Longrightarrow> is8 y \<Longrightarrow> is8 (x + y)"
  unfolding is8_iff
proof -
  assume "\<exists>n::int. x * 100000000 = of_int n" "\<exists>n::int. y * 100000000 = of_int n"
  then obtain m n :: int where "x * 100000000 = of_int m" "y * 100000000 = of_int n" by blast
  then have "(x + y) * 100000000 = of_int (m + n)" by (simp add: algebra_simps)
  then show "\<exists>n::int. (x + y) * 100000000 = of_int n" by blast
qed

lemma is8_minus: "is8 x \<Longrightarrow> is8 (- x)"
  unfolding is8_iff
proof -
  assume "\<exists>n::int. x * 100000000 = of_int n"
  then obtain m :: int where "x * 100000000 = of_int m" by blast
  then have "(- x) * 100000000 = of_int (- m)" by simp
  then show "\<exists>n::int. (- x) * 100000000 = of_int n" by blast
qed

lemma is8_diff: "is8 x \<Longrightarrow> is8 y \<Longrightarrow> is8 (x - y)"
  using is8_add [of x "- y"] is8_minus [of y] by simp

text \<open>An 8-decimal amount that is less than one unit of the 8th decimal is at most 0.\<close>

lemma is8_less_unit: "is8 t \<Longrightarrow> t < 1 / 100000000 \<Longrightarrow> t \<le> 0"
proof -
  assume "is8 t" and l: "t < 1 / 100000000"
  then obtain n :: int where n: "t * 100000000 = of_int n"
    unfolding is8_iff by blast
  from l have "t * 100000000 < 1" by simp
  with n have "(of_int n :: rat) < 1" by simp
  then have "n \<le> 0" by simp
  then have "(of_int n :: rat) \<le> 0" by simp
  with n have "t * 100000000 \<le> 0" by simp
  then show ?thesis by (simp add: mult_le_0_iff)
qed

lemma amount_of_decimal:
  assumes "is8 t" and "0 \<le> t" and "t \<le> 10000000"
  shows "toFixed8 (round64 t) = t" and "amount_ok (round64 t)"
proof -
  from assms have "\<bar>t\<bar> < 16777216" by simp
  from round64_err [OF this] have "\<bar>round64 t - t\<bar> < 1 / 200000000" by simp
  from toFixed8_near [OF assms(1) this] show d: "toFixed8 (round64 t) = t" .
  with assms show "amount_ok (round64 t)"
    by (simp add: amount_ok_def round64_nonneg)
qed

lemma amount_ok_dec:
  assumes "amount_ok x"
  shows "is8 (toFixed8 x)" and "0 \<le> toFixed8 x" and "toFixed8 x \<le> 10000000"
    and "\<bar>x - toFixed8 x\<bar> \<le> 1 / 1073741824"
proof -
  show "is8 (toFixed8 x)" by (rule is8_toFixed8)
  from assms show 0: "0 \<le> toFixed8 x" by (simp add: amount_ok_def toFixed8_nonneg)
  from assms show 1: "toFixed8 x \<le> 10000000" by (simp add: amount_ok_def)
  from 0 1 have "\<bar>toFixed8 x\<bar> < 16777216" by simp
  from round64_err [OF this] assms show "\<bar>x - toFixed8 x\<bar> \<le> 1 / 1073741824"
    by (simp add: amount_ok_def)
qed


text \<open>A debit \<^verbatim>\<open>Number((b - p).toFixed(8))\<close> of amounts of at most ten million is exact.\<close>

lemma debit_exact:
  assumes "amount_ok b" and "amount_ok p" and "p \<le> b"
  shows "toFixed8 (round64 (b - p)) = toFixed8 b - toFixed8 p"
    and "toFixed8 (num8 (round64 (b - p))) = toFixed8 b - toFixed8 p"
    and "amount_ok (num8 (round64 (b - p)))"
    and "toFixed8 p \<le> toFixed8 b"
proof -
  note B = amount_ok_dec [OF assms(1)] and P = amount_ok_dec [OF assms(2)]
  from assms(2) have p0: "0 \<le> p" by (simp add: amount_ok_def)
  from B(3,4) have "b < 16777216" by linarith
  with p0 assms(3) have "\<bar>b - p\<bar> < 16777216" by simp
  from round64_err [OF this] B(4) P(4)
  have "\<bar>round64 (b - p) - (toFixed8 b - toFixed8 p)\<bar> < 1 / 200000000"
    by linarith
  from toFixed8_near [OF is8_diff [OF B(1) P(1)] this]
  show d: "toFixed8 (round64 (b - p)) = toFixed8 b - toFixed8 p" .
  from assms(3) B(4) P(4) have "toFixed8 p - toFixed8 b < 1 / 100000000" by linarith
  from is8_less_unit [OF is8_diff [OF P(1) B(1)] this]
  show le: "toFixed8 p \<le> toFixed8 b" by simp
  with P(2) B(3) have "0 \<le> toFixed8 b - toFixed8 p" "toFixed8 b - toFixed8 p \<le> 10000000"
    by simp_all
  from amount_of_decimal [OF is8_diff [OF B(1) P(1)] this]
  show "toFixed8 (num8 (round64 (b - p))) = toFixed8 b - toFixed8 p"
    and "amount_ok (num8 (round64 (b - p)))"
    by (simp_all add: num8_def d)
qed

text \<open>A credit \<^verbatim>\<open>Number((b + a).toFixed(8))\<close> that stays within ten million is exact.\<close>

lemma credit_exact:
  assumes "amount_ok b" and "amount_ok a" and "toFixed8 b + toFixed8 a \<le> 10000000"
  shows "toFixed8 (round64 (b + a)) = toFixed8 b + toFixed8 a"
    and "toFixed8 (num8 (round64 (b + a))) = toFixed8 b + toFixed8 a"
    and "amount_ok (num8 (round64 (b + a)))"
proof -
  note B = amount_ok_dec [OF assms(1)] and A = amount_ok_dec [OF assms(2)]
  from assms(1,2) have "0 \<le> b" "0 \<le> a" by (simp_all add: amount_ok_def)
  with B(4) A(4) assms(3) have "\<bar>b + a\<bar> < 16777216" by linarith
  from round64_err [OF this] B(4) A(4)
  have "\<bar>round64 (b + a) - (toFixed8 b + toFixed8 a)\<bar> < 1 / 200000000"
    by linarith
  from toFixed8_near [OF is8_add [OF B(1) A(1)] this]
  show d: "toFixed8 (round64 (b + a)) = toFixed8 b + toFixed8 a" .
  from B(2) A(2) have "0 \<le> toFixed8 b + toFixed8 a" by simp
  from amount_of_decimal [OF is8_add [OF B(1) A(1)] this assms(3)]
  show "toFixed8 (num8 (round64 (b + a))) = toFixed8 b + toFixed8 a"
    and "amount_ok (num8 (round64 (b + a)))"
    by (simp_all add: num8_def d)
qed

subsection \<open>Prices and balances\<close>

lemma is8_0: "is8 0"
  by (simp add: is8_def)

lemma toFixed8_0: "toFixed8 0 = 0"
  by code_simp

lemma amount_ok_0: "amount_ok 0"
  by (simp add: amount_ok_def toFixed8_0 round64_0)

lemma ilog2_ge:
  assumes "0 < x" and "2 powi k \<le> x"
  shows "k \<le> ilog2 x"
proof (rule ccontr)
  assume "\<not> k \<le> ilog2 x"
  then have "(2::rat) powi (ilog2 x + 1) \<le> 2 powi k"
    by (intro power_int_increasing) simp_all
  with assms(2) ilog2_bounds(2) [OF assms(1)] show False by simp
qed

text \<open>A price that a balance of at most ten million covers is itself such an amount.\<close>

lemma price_below_balance:
  assumes "price_ok p" and "amount_ok b" and "p \<le> b"
  shows "amount_ok p"
proof -
  from assms(1) obtain t where t: "is8 t" "0 \<le> t" "p = round64 t"
    unfolding price_ok_def by blast
  note B = amount_ok_dec [OF assms(2)]
  from B(3,4) have b: "b \<le> 10000000 + 1 / 1073741824" by linarith
  have "t \<le> 10000000"
  proof (rule ccontr)
    assume "\<not> t \<le> 10000000"
    then have "\<not> t - 10000000 \<le> 0" by simp
    moreover have "is8 (t - 10000000)"
      by (rule is8_diff [OF t(1)]) (simp add: is8_def)
    ultimately have "\<not> t - 10000000 < 1 / 100000000"
      using is8_less_unit by blast
    then have big: "10000000 + 1 / 100000000 \<le> t" by simp
    show False
    proof (cases "t < 16777216")
      case True
      with t(2) have "\<bar>t\<bar> < 16777216" by simp
      from round64_err [OF this] have "t - 1 / 1073741824 \<le> round64 t" by linarith
      with big b assms(3) t(3) show False by simp
    next
      case False
      then have l: "(2::rat) powi 24 \<le> t" by simp
      from False have t0: "0 < t" by simp
      from ilog2_ge [OF t0 l] have e: "24 \<le> ilog2 t" .
      then have "- 1022 \<le> ilog2 t" by simp
      from round64_lower [OF t0 this] have "2 powi ilog2 t \<le> round64 t" .
      moreover from e have "(2::rat) powi 24 \<le> 2 powi ilog2 t"
        by (intro power_int_increasing) simp_all
      ultimately have "16777216 \<le> round64 t" by simp
      with b assms(3) t(3) show False by simp
    qed
  qed
  from amount_of_decimal(2) [OF t(1,2) this] t(3) show ?thesis by simp
qed

lemma toFixed8_nearest: "\<bar>toFixed8 x - x\<bar> \<le> 1 / 200000000"
proof (cases "x < 0")
  case True
  define n where "n = \<lfloor>(- x) * 100000000 + 1 / 2\<rfloor>"
  have "of_int n \<le> (- x) * 100000000 + 1 / 2" and "(- x) * 100000000 + 1 / 2 < of_int n + 1"
    unfolding n_def by linarith+
  then have a: "\<bar>of_int n + x * 100000000\<bar> \<le> 1 / 2"
    by linarith
  have eq: "- (of_int n / 100000000) - x = - ((of_int n + x * 100000000) / 100000000)"
    by (simp add: field_simps)
  have "\<bar>- (of_int n / 100000000) - x\<bar> = \<bar>of_int n + x * 100000000\<bar> / 100000000"
    unfolding eq abs_minus_cancel abs_divide by simp
  also have "\<dots> \<le> (1 / 2) / 100000000"
    using a by (rule divide_right_mono) simp
  finally have "\<bar>- (of_int n / 100000000) - x\<bar> \<le> 1 / 200000000"
    by simp
  with True show ?thesis by (simp add: toFixed8_def n_def)
next
  case False
  define n where "n = \<lfloor>x * 100000000 + 1 / 2\<rfloor>"
  have "of_int n \<le> x * 100000000 + 1 / 2" and "x * 100000000 + 1 / 2 < of_int n + 1"
    unfolding n_def by linarith+
  then have a: "\<bar>of_int n - x * 100000000\<bar> \<le> 1 / 2"
    by linarith
  have eq: "of_int n / 100000000 - x = (of_int n - x * 100000000) / 100000000"
    by (simp add: field_simps)
  have "\<bar>of_int n / 100000000 - x\<bar> = \<bar>of_int n - x * 100000000\<bar> / 100000000"
    unfolding eq abs_divide by simp
  also have "\<dots> \<le> (1 / 2) / 100000000"
    using a by (rule divide_right_mono) simp
  finally have "\<bar>of_int n / 100000000 - x\<bar> \<le> 1 / 200000000"
    by simp
  with False show ?thesis by (simp add: toFixed8_def n_def)
qed

subsection \<open>The numbers of the scenarios\<close>

lemma num8_examples:
  "num8 (minus64 20 (25 / 2)) = 15 / 2"
  "num8 (plus64 0 (25 / 2)) = 25 / 2"
  "num8 (plus64 (25 / 2) 0) = 25 / 2"
  "num8 (round64 (25 / 2)) = 25 / 2"
  "num8 (round64 1) = 1"
  "num8 (plus64 0 (round64 20)) = 20"
  "num8 (plus64 0 (round64 5)) = 5"
  "num8 (minus64 30 (25 / 2)) = 35 / 2"
  "num8 (plus64 0 (round64 (- 5))) = - 5"
  by (code_simp+)

lemma round64_examples:
  "round64 (25 / 2) = 25 / 2" "round64 1 = 1" "round64 20 = 20" "round64 5 = 5"
  "round64 (- 5) = - 5"
  by (code_simp+)

lemma toFixed8_examples:
  "toFixed8 (15 / 2) = 15 / 2" "toFixed8 (25 / 2) = 25 / 2"
  "toFixed8 20 = 20" "toFixed8 5 = 5" "toFixed8 (35 / 2) = 35 / 2"
  by (code_simp+)

lemma amount_ok_examples:
  "amount_ok 20" "amount_ok 5" "amount_ok (15 / 2)" "amount_ok (25 / 2)"
  by (code_simp+)

lemma price_ok_golden: "price_ok (25 / 2)"
  unfolding price_ok_def
  by (rule exI [of _ "25 / 2"]) (simp add: is8_def round64_examples)

lemma big_examples:
  "round64 1000000000 = 1000000000"
  "num8 (plus64 0 (round64 1000000000)) = 1000000000"
  "num8 (minus64 1000000000 dust) = 1000000000"
  "num8 (plus64 1000000000 dust) = 1000000000"
  "toFixed8 1000000000 = 1000000000"
  "toFixed8 dust = 1 / 100000000"
  "0 < dust" "dust \<le> 1000000000"
  by (code_simp+)

section \<open>The ledger\<close>

subsection \<open>Assignments to a JavaScript object\<close>

lemma sum_list_update:
  fixes f :: "'v \<Rightarrow> rat"
  shows "sum_list (map (\<lambda>kv. f (snd kv)) (AList.update k v xs)) =
     sum_list (map (\<lambda>kv. f (snd kv)) xs) - (case map_of xs k of None \<Rightarrow> 0 | Some w \<Rightarrow> f w) + f v"
  by (induction xs) auto

lemma sum_list_member_le:
  fixes f :: "'v \<Rightarrow> rat"
  assumes "list_all (\<lambda>kv. 0 \<le> f (snd kv)) xs"
  shows "0 \<le> sum_list (map (\<lambda>kv. f (snd kv)) xs)"
    and "map_of xs k = Some v \<Longrightarrow> f v \<le> sum_list (map (\<lambda>kv. f (snd kv)) xs)"
proof -
  from assms show 0: "0 \<le> sum_list (map (\<lambda>kv. f (snd kv)) xs)"
    by (induction xs) simp_all
  from assms show "map_of xs k = Some v \<Longrightarrow> f v \<le> sum_list (map (\<lambda>kv. f (snd kv)) xs)"
  proof (induction xs)
    case Nil
    then show ?case by simp
  next
    case (Cons a xs)
    from Cons.prems(2) have "0 \<le> f (snd a)" and r: "list_all (\<lambda>kv. 0 \<le> f (snd kv)) xs"
      by simp_all
    have s: "0 \<le> sum_list (map (\<lambda>kv. f (snd kv)) xs)"
      using r by (induction xs) simp_all
    show ?case
    proof (cases "fst a = k")
      case True
      with Cons.prems(1) have "snd a = v" by (cases a) simp
      with s show ?thesis by simp
    next
      case False
      with Cons.prems(1) have "map_of xs k = Some v" by (cases a) simp
      from Cons.IH [OF this r] \<open>0 \<le> f (snd a)\<close> show ?thesis by simp
    qed
  qed
qed

lemma set_update_subset: "set (AList.update k v xs) \<subseteq> insert (k, v) (set xs)"
  by (induction xs) auto

lemma list_all_update:
  "list_all P xs \<Longrightarrow> P (k, v) \<Longrightarrow> list_all P (AList.update k v xs)"
  using set_update_subset [of k v xs] by (auto simp: list_all_iff)

lemma list_all_map_of: "list_all P xs \<Longrightarrow> map_of xs k = Some v \<Longrightarrow> P (k, v)"
  by (auto simp: list_all_iff dest: map_of_SomeD)

lemma balance_of_update:
  "balance_of (s\<lparr>balances := AList.update u b (balances s)\<rparr>) v =
     (if v = u then b else balance_of s v)"
  by (simp add: balance_of_def update_conv')

lemma balance_of_balances_update:
  "balance_of (s\<lparr>balances := AList.update u b (balances s), deals := ds\<rparr>) v =
     (if v = u then b else balance_of s v)"
  "balance_of (s\<lparr>balances := AList.update u b (balances s), deals := ds, logs := ls\<rparr>) v =
     (if v = u then b else balance_of s v)"
  by (simp_all add: balance_of_def update_conv')

subsection \<open>Looking up a deal\<close>

lemma deals_get_Stored: "deals_get s k = Stored d \<longleftrightarrow> map_of (deals s) k = Some d"
  by (simp add: deals_get_def split: option.splits)

lemma deals_get_stored: "map_of (deals s) k = Some d \<Longrightarrow> deals_get s k = Stored d"
  by (simp add: deals_get_def)

lemma deals_get_unstored:
  "map_of (deals s) k = None \<Longrightarrow>
     deals_get s k =
       (if k \<in> set inherited_keys then Inherited
        else if k \<in> set [''status'', ''sent_at''] \<and> map_of (proto_sent s) ''__proto__'' \<noteq> None
        then Written else Missing)"
  by (simp add: deals_get_def)

lemma deals_get_id:
  "deals_get s (CHR ''#'' # k) =
     (case map_of (deals s) (CHR ''#'' # k) of None \<Rightarrow> Missing | Some d \<Rightarrow> Stored d)"
  by (simp add: deals_get_def inherited_keys_def split: option.splits)

subsection \<open>A sound ledger\<close>

lemma amount_ok_balance_of: "ledger_ok s \<Longrightarrow> amount_ok (balance_of s u)"
proof (cases "map_of (balances s) u")
  case None
  then show ?thesis by (simp add: balance_of_def amount_ok_0)
next
  case (Some b)
  assume "ledger_ok s"
  then have "list_all (\<lambda>ub. amount_ok (snd ub)) (balances s)" by (simp add: ledger_ok_def)
  from list_all_map_of [OF this Some] Some show ?thesis by (simp add: balance_of_def)
qed

lemma deal_ok_lookup: "ledger_ok s \<Longrightarrow> map_of (deals s) k = Some d \<Longrightarrow> deal_ok d"
proof -
  assume "ledger_ok s" and d: "map_of (deals s) k = Some d"
  then have "list_all (\<lambda>kd. deal_ok (snd kd)) (deals s)" by (simp add: ledger_ok_def)
  from list_all_map_of [OF this d] show ?thesis by simp
qed

lemma amount_ok_nonneg: "amount_ok x \<Longrightarrow> 0 \<le> toFixed8 x"
  by (simp add: amount_ok_def toFixed8_nonneg)

lemma ledger_ok_totals:
  assumes "ledger_ok s"
  shows "0 \<le> total_balances s" and "0 \<le> total_locked s"
    and "toFixed8 (balance_of s u) \<le> total_balances s"
    and "map_of (deals s) k = Some d \<Longrightarrow> toFixed8 (locked d) \<le> total_locked s"
proof -
  from assms have b: "list_all (\<lambda>ub. 0 \<le> toFixed8 (snd ub)) (balances s)"
    by (simp add: ledger_ok_def list_all_iff amount_ok_nonneg)
  from assms have l: "list_all (\<lambda>kd. 0 \<le> (\<lambda>d. toFixed8 (locked d)) (snd kd)) (deals s)"
    by (simp add: ledger_ok_def list_all_iff amount_ok_nonneg deal_ok_def)
  from sum_list_member_le(1) [OF b] show 0: "0 \<le> total_balances s"
    by (simp add: total_balances_def)
  from sum_list_member_le(1) [OF l] show "0 \<le> total_locked s"
    by (simp add: total_locked_def)
  show "toFixed8 (balance_of s u) \<le> total_balances s"
  proof (cases "map_of (balances s) u")
    case None
    with 0 show ?thesis by (simp add: balance_of_def toFixed8_0)
  next
    case (Some x)
    from sum_list_member_le(2) [OF b Some] Some show ?thesis
      by (simp add: balance_of_def total_balances_def)
  qed
  show "map_of (deals s) k = Some d \<Longrightarrow> toFixed8 (locked d) \<le> total_locked s"
    using sum_list_member_le(2) [OF l] by (simp add: total_locked_def)
qed

lemma ledger_ok_init: "ledger_ok state_init"
  by (simp add: ledger_ok_def state_init_def total_funds_def total_balances_def total_locked_def)

subsection \<open>What a handler does to the funds\<close>

lemma total_funds_update:
  assumes "balances s' = AList.update u b (balances s)"
    and "deals s' = AList.update k d' (deals s)"
  shows "total_funds s' =
     total_funds s - toFixed8 (balance_of s u) + toFixed8 b
       - (case map_of (deals s) k of None \<Rightarrow> 0 | Some d \<Rightarrow> toFixed8 (locked d))
       + toFixed8 (locked d')"
proof -
  have "(case map_of (balances s) u of None \<Rightarrow> 0 | Some w \<Rightarrow> toFixed8 w)
      = toFixed8 (balance_of s u)"
    by (simp add: balance_of_def toFixed8_0 split: option.splits)
  with sum_list_update [of toFixed8 u b "balances s"]
    sum_list_update [of "\<lambda>d. toFixed8 (locked d)" k d' "deals s"]
  show ?thesis
    by (simp add: total_funds_def total_balances_def total_locked_def assms)
qed

lemma total_funds_deals_update:
  assumes "balances s' = balances s"
    and "deals s' = AList.update k d' (deals s)"
  shows "total_funds s' =
     total_funds s - (case map_of (deals s) k of None \<Rightarrow> 0 | Some d \<Rightarrow> toFixed8 (locked d))
       + toFixed8 (locked d')"
  using sum_list_update [of "\<lambda>d. toFixed8 (locked d)" k d' "deals s"]
  by (simp add: total_funds_def total_balances_def total_locked_def assms)

section \<open>The handlers\<close>

subsection \<open>The deal of the scenarios, step by step\<close>

lemmas scenario_defs =
  golden_def s_open_def s_bought_def s_sent_def s_done_def s_done_again_def s_done_early_def

lemma buy_s_open: "buy s_open ''#A7342'' 2 ''t1'' = Inr s_bought"
  by (simp add: buy_def deals_get_id scenario_defs balance_of_def num8_examples Let_def)

lemma seller_sent_s_bought: "seller_sent s_bought ''#A7342'' 1 ''t2'' = Inr s_sent"
  by (simp add: seller_sent_def deals_get_id scenario_defs)

lemma buyer_received_s_sent: "buyer_received s_sent ''#A7342'' 2 ''t3'' = Inr s_done"
  by (simp add: buyer_received_def deals_get_id no_buyer_def scenario_defs balance_of_def
      num8_examples Let_def)

lemma buyer_received_s_done: "buyer_received s_done ''#A7342'' 2 ''t4'' = Inr s_done_again"
  by (simp add: buyer_received_def deals_get_id no_buyer_def scenario_defs balance_of_def
      num8_examples Let_def)

lemma buyer_received_s_bought: "buyer_received s_bought ''#A7342'' 3 ''t3'' = Inr s_done_early"
  by (simp add: buyer_received_def deals_get_id no_buyer_def scenario_defs balance_of_def
      num8_examples Let_def)

lemma total_funds_scenario:
  "total_funds s_open = 25" "total_funds s_bought = 25" "total_funds s_sent = 25"
  "total_funds s_done = 25"
  by (simp_all add: total_funds_def total_balances_def total_locked_def scenario_defs
      toFixed8_examples toFixed8_0)

lemma ledger_ok_scenario: "ledger_ok s_open" "ledger_ok s_bought" "ledger_ok s_sent" "ledger_ok s_done"
  by (simp_all add: ledger_ok_def total_funds_scenario)
    (simp_all add: deal_ok_def scenario_defs amount_ok_examples amount_ok_0 price_ok_golden)

lemma deals_scenario:
  "map_of (deals s_open) ''#A7342'' = Some golden"
  "map_of (deals s_bought) ''#A7342'' = Some (golden\<lparr>buyer := Some 2, locked := 25 / 2,
                 status := ''in_progress'', locked_at := Some ''t1''\<rparr>)"
  "map_of (deals s_sent) ''#A7342'' = Some (golden\<lparr>buyer := Some 2, locked := 25 / 2,
                 status := ''sent_to_support'', locked_at := Some ''t1'', sent_at := Some ''t2''\<rparr>)"
  "map_of (deals s_done) ''#A7342'' = Some (golden\<lparr>buyer := Some 2, locked := 0,
                 status := ''done'', locked_at := Some ''t1'',
                 sent_at := Some ''t2'', completed_at := Some ''t3''\<rparr>)"
  by (simp_all add: scenario_defs)

lemmas big_defs = s_big_open_def s_big_bought_def s_big_done_def golden_def

lemma buy_s_big_open: "buy s_big_open ''#A7342'' 2 ''t1'' = Inr s_big_bought"
  using big_examples(8)
  by (simp add: buy_def deals_get_id big_defs balance_of_def big_examples(3) Let_def)

lemma buyer_received_s_big_bought:
  "buyer_received s_big_bought ''#A7342'' 2 ''t3'' = Inr s_big_done"
  by (simp add: buyer_received_def deals_get_id no_buyer_def big_defs balance_of_def
      big_examples(4) Let_def)

lemma total_funds_big:
  "total_funds s_big_open = 2000000000"
  "total_funds s_big_bought = 2000000000 + 1 / 100000000"
  "total_funds s_big_done = 2000000000"
  by (simp_all add: total_funds_def total_balances_def total_locked_def big_defs
      big_examples(5,6) toFixed8_0)

subsection \<open>What each handler does to a stored deal\<close>

lemma buy_result:
  assumes "map_of (deals s) dealId = Some d"
  shows "buy s dealId u now =
     (if status d \<noteq> ''open'' then Inl InvalidState
      else if balance_of s u < price d then Inl InsufficientFunds
      else Inr (s\<lparr>balances := AList.update u (num8 (minus64 (balance_of s u) (price d))) (balances s),
                  deals := AList.update dealId
                    (d\<lparr>buyer := Some u, locked := price d, status := ''in_progress'',
                       locked_at := Some now\<rparr>) (deals s)\<rparr>))"
  by (simp add: buy_def deals_get_stored [OF assms] Let_def)

lemma buyer_received_result:
  assumes "map_of (deals s) dealId = Some d"
  shows "buyer_received s dealId actor now =
     (if no_buyer d then Inl NoBuyer
      else Inr (s\<lparr>balances := AList.update (seller d)
                      (num8 (plus64 (balance_of s (seller d)) (locked d))) (balances s),
                  deals := AList.update dealId
                      (d\<lparr>status := ''done'', completed_at := Some now, locked := 0\<rparr>) (deals s),
                  logs := AList.update dealId
                      \<lparr>log_id = dealId, log_seller = seller d, log_buyer = buyer d,
                        log_amount = locked d, log_title = title d, log_desc = desc d,
                        log_completed_at = Some now\<rparr> (logs s)\<rparr>))"
  by (simp add: buyer_received_def deals_get_stored [OF assms] Let_def)

lemma seller_sent_result:
  assumes "map_of (deals s) dealId = Some d"
  shows "seller_sent s dealId actor now =
     Inr (s\<lparr>deals := AList.update dealId
               (d\<lparr>status := ''sent_to_support'', sent_at := Some now\<rparr>) (deals s)\<rparr>)"
  by (simp add: seller_sent_def deals_get_stored [OF assms])

subsection \<open>What an operation does to the state\<close>

lemma exec_CreateDeal:
  "exec owner s (CreateDeal u ty ti de pv now) =
     (case pv of
        None \<Rightarrow> s
      | Some p \<Rightarrow>
          if round64 p \<le> 0 then s
          else s\<lparr>seq := snd (nextDealId (seq s)),
                 deals := AList.update (fst (nextDealId (seq s)))
                   \<lparr>deal_id = fst (nextDealId (seq s)), seller = u, buyer = None, title = ti,
                     desc = de,
                     dtype = (case ty of None \<Rightarrow> ''NFT'' | Some t \<Rightarrow> if t = [] then ''NFT'' else t),
                     price = num8 (round64 p), status = ''open'', locked = 0,
                     created_at = now, locked_at = None, sent_at = None,
                     completed_at = None\<rparr> (deals s)\<rparr>)"
  by (simp add: exec_def num_done_def Let_def split: option.splits prod.splits)

lemma reuses_id_CreateDeal:
  "reuses_id s (CreateDeal u ty ti de pv now) =
     (case pv of
        None \<Rightarrow> False
      | Some p \<Rightarrow> \<not> round64 p \<le> 0 \<and> map_of (deals s) (fst (nextDealId (seq s))) \<noteq> None)"
  by (simp add: num_done_def Let_def split: option.splits prod.splits)

lemma exec_Buy:
  "exec owner s (Buy dealId u now) =
     (case map_of (deals s) dealId of
        None \<Rightarrow> s
      | Some d \<Rightarrow>
          if status d \<noteq> ''open'' \<or> balance_of s u < price d then s
          else s\<lparr>balances := AList.update u (num8 (minus64 (balance_of s u) (price d))) (balances s),
                 deals := AList.update dealId
                   (d\<lparr>buyer := Some u, locked := price d, status := ''in_progress'',
                      locked_at := Some now\<rparr>) (deals s)\<rparr>)"
  by (simp add: exec_def buy_def deals_get_def Let_def split: option.splits)

lemma exec_MarkSent:
  "exec owner s (MarkSent dealId u now) =
     (case map_of (deals s) dealId of
        None \<Rightarrow>
          if dealId \<in> set inherited_keys
          then s\<lparr>proto_sent := AList.update dealId now (proto_sent s)\<rparr> else s
      | Some d \<Rightarrow>
          s\<lparr>deals := AList.update dealId
               (d\<lparr>status := ''sent_to_support'', sent_at := Some now\<rparr>) (deals s)\<rparr>)"
  by (simp add: exec_def seller_sent_def deals_get_def split: option.splits)

lemma exec_ConfirmReceived:
  "exec owner s (ConfirmReceived dealId u now) =
     (case map_of (deals s) dealId of
        None \<Rightarrow> s
      | Some d \<Rightarrow>
          if no_buyer d then s
          else s\<lparr>balances := AList.update (seller d)
                      (num8 (plus64 (balance_of s (seller d)) (locked d))) (balances s),
                  deals := AList.update dealId
                      (d\<lparr>status := ''done'', completed_at := Some now, locked := 0\<rparr>) (deals s),
                  logs := AList.update dealId
                      \<lparr>log_id = dealId, log_seller = seller d, log_buyer = buyer d,
                        log_amount = locked d, log_title = title d, log_desc = desc d,
                        log_completed_at = Some now\<rparr> (logs s)\<rparr>)"
  by (simp add: exec_def buyer_received_def deals_get_def Let_def split: option.splits)

lemma exec_ReportProblem: "exec owner s (ReportProblem dealId u) = s"
  by (simp add: exec_def buyer_problem_def split: found.splits)

lemma exec_AdminCredit:
  "exec owner s (AdminCredit u args) =
     (case args of
        Some (target, Some amt) \<Rightarrow>
          if u \<noteq> owner then s
          else s\<lparr>balances := AList.update target
                    (num8 (plus64 (balance_of s target) (round64 amt))) (balances s)\<rparr>
      | _ \<Rightarrow> s)"
  by (simp add: exec_def givebalance_def Let_def split: option.splits prod.splits)

lemma run_append: "run owner s (xs @ ys) = run owner (run owner s xs) ys"
  by (induction xs arbitrary: s) simp_all

lemma num8_plain: "num8 (25 / 2) = 25 / 2" "num8 1 = 1"
  by (code_simp+)

lemma run_funding:
  "run 9 state_init [AdminCredit 9 (Some (2, Some 20)), AdminCredit 9 (Some (3, Some 5))]
     = wrap_start"
  by (simp add: exec_AdminCredit balance_of_def state_init_def wrap_start_def num8_examples)

lemma exec_create_golden:
  "exec 9 wrap_start (CreateDeal 1 (Some ''NFT'') ''Golden Gift'' ''rare'' (Some (25 / 2)) ''t0'')
     = s_open"
  by (simp add: exec_CreateDeal wrap_start_def state_init_def nextDealId_init
      num8_plain round64_examples s_open_def golden_def)

lemma reuses_id_create_golden:
  "\<not> reuses_id wrap_start
      (CreateDeal 1 (Some ''NFT'') ''Golden Gift'' ''rare'' (Some (25 / 2)) ''t0'')"
  by (simp add: reuses_id_CreateDeal wrap_start_def state_init_def del: reuses_id.simps)

lemma exec_scenario:
  "exec 9 s_open (Buy ''#A7342'' 2 ''t1'') = s_bought"
  "exec 9 s_bought (MarkSent ''#A7342'' 1 ''t2'') = s_sent"
  "exec 9 s_sent (ConfirmReceived ''#A7342'' 2 ''t3'') = s_done"
  by (simp_all add: exec_def buy_s_open seller_sent_s_bought buyer_received_s_sent)

lemma dust_positive: "\<not> round64 (1 / 100000000) \<le> 0"
  by code_simp

lemma run_big:
  "run 9 state_init
     [AdminCredit 9 (Some (2, Some 1000000000)), AdminCredit 9 (Some (1, Some 1000000000)),
      CreateDeal 1 (Some ''NFT'') ''Golden Gift'' ''rare'' (Some (1 / 100000000)) ''t0'']
     = s_big_open"
  using dust_positive
  by (simp add: exec_AdminCredit exec_CreateDeal balance_of_def state_init_def big_examples(2)
      nextDealId_init s_big_open_def golden_def dust_def)

subsection \<open>Buying\<close>

lemma debit_price_exact:
  assumes "ledger_ok s" and "map_of (deals s) dealId = Some d"
    and "price d \<le> balance_of s u"
  shows "toFixed8 (num8 (minus64 (balance_of s u) (price d)))
       = toFixed8 (balance_of s u) - toFixed8 (price d)"
    and "amount_ok (num8 (minus64 (balance_of s u) (price d)))"
    and "amount_ok (price d)"
proof -
  from deal_ok_lookup [OF assms(1,2)] have "price_ok (price d)"
    by (simp add: deal_ok_def)
  from price_below_balance [OF this amount_ok_balance_of [OF assms(1)] assms(3)]
  show p: "amount_ok (price d)" .
  from debit_exact(2,3) [OF amount_ok_balance_of [OF assms(1)] p assms(3)]
  show "toFixed8 (num8 (minus64 (balance_of s u) (price d)))
       = toFixed8 (balance_of s u) - toFixed8 (price d)"
    and "amount_ok (num8 (minus64 (balance_of s u) (price d)))"
    by (simp_all add: minus64_def)
qed

text \<open>
  C5, as the code has it. In a sound ledger (amounts of 8 decimals, ten million at
  most), buying: an id that is neither stored nor inherited is refused with NotFound, an
  inherited key with InvalidState; a stored deal that is not open is refused with
  InvalidState, whatever the balance, an open deal whose price exceeds the buyer's
  balance with InsufficientFunds, and a refusal changes nothing. Otherwise the purchase
  succeeds: the balance stored is \<^verbatim>\<open>Number((bal - price).toFixed(8))\<close>, which is the
  balance less the price in 8 decimals, the buyer is recorded on the deal, \<open>locked\<close>
  is the price and the status is \<open>in_progress\<close>; nothing else in the balances and
  the deals changes. The purchase succeeds in no other case.
\<close>

theorem C5_buy:
  assumes "ledger_ok s"
  shows "(deals_get s dealId = Missing \<longrightarrow>
            buy s dealId u now = Inl NotFound \<and> exec owner s (Buy dealId u now) = s)
       \<and> (deals_get s dealId = Inherited \<or> deals_get s dealId = Written \<longrightarrow>
            buy s dealId u now = Inl InvalidState \<and> exec owner s (Buy dealId u now) = s)
       \<and> (\<forall>d. map_of (deals s) dealId = Some d \<longrightarrow>
            (status d \<noteq> ''open'' \<longrightarrow>
               buy s dealId u now = Inl InvalidState \<and> exec owner s (Buy dealId u now) = s)
          \<and> (status d = ''open'' \<and> balance_of s u < price d \<longrightarrow>
               buy s dealId u now = Inl InsufficientFunds \<and> exec owner s (Buy dealId u now) = s)
          \<and> (status d = ''open'' \<and> price d \<le> balance_of s u \<longrightarrow>
               (\<exists>s'. buy s dealId u now = Inr s'
                  \<and> balance_of s' u = num8 (minus64 (balance_of s u) (price d))
                  \<and> toFixed8 (balance_of s' u) = toFixed8 (balance_of s u) - toFixed8 (price d)
                  \<and> (\<forall>v. v \<noteq> u \<longrightarrow> balance_of s' v = balance_of s v)
                  \<and> map_of (deals s') dealId =
                      Some (d\<lparr>buyer := Some u, locked := price d, status := ''in_progress'',
                              locked_at := Some now\<rparr>)
                  \<and> (\<forall>k. k \<noteq> dealId \<longrightarrow> map_of (deals s') k = map_of (deals s) k)))
          \<and> (\<forall>s'. buy s dealId u now = Inr s' \<longrightarrow>
                 status d = ''open'' \<and> price d \<le> balance_of s u))"
proof -
  have M: "deals_get s dealId = Missing \<longrightarrow>
            buy s dealId u now = Inl NotFound \<and> exec owner s (Buy dealId u now) = s"
    by (simp add: buy_def exec_def)
  have I: "deals_get s dealId = Inherited \<or> deals_get s dealId = Written \<longrightarrow>
            buy s dealId u now = Inl InvalidState \<and> exec owner s (Buy dealId u now) = s"
    by (auto simp: buy_def exec_def)
  have S: "\<forall>d. map_of (deals s) dealId = Some d \<longrightarrow>
            (status d \<noteq> ''open'' \<longrightarrow>
               buy s dealId u now = Inl InvalidState \<and> exec owner s (Buy dealId u now) = s)
          \<and> (status d = ''open'' \<and> balance_of s u < price d \<longrightarrow>
               buy s dealId u now = Inl InsufficientFunds \<and> exec owner s (Buy dealId u now) = s)
          \<and> (status d = ''open'' \<and> price d \<le> balance_of s u \<longrightarrow>
               (\<exists>s'. buy s dealId u now = Inr s'
                  \<and> balance_of s' u = num8 (minus64 (balance_of s u) (price d))
                  \<and> toFixed8 (balance_of s' u) = toFixed8 (balance_of s u) - toFixed8 (price d)
                  \<and> (\<forall>v. v \<noteq> u \<longrightarrow> balance_of s' v = balance_of s v)
                  \<and> map_of (deals s') dealId =
                      Some (d\<lparr>buyer := Some u, locked := price d, status := ''in_progress'',
                              locked_at := Some now\<rparr>)
                  \<and> (\<forall>k. k \<noteq> dealId \<longrightarrow> map_of (deals s') k = map_of (deals s) k)))
          \<and> (\<forall>s'. buy s dealId u now = Inr s' \<longrightarrow>
                 status d = ''open'' \<and> price d \<le> balance_of s u)"
  proof (intro allI impI)
    fix d assume d: "map_of (deals s) dealId = Some d"
    note b = buy_result [OF d, of u now]
    have A: "status d \<noteq> ''open'' \<longrightarrow>
              buy s dealId u now = Inl InvalidState \<and> exec owner s (Buy dealId u now) = s"
      by (simp add: b exec_def)
    have B: "status d = ''open'' \<and> balance_of s u < price d \<longrightarrow>
              buy s dealId u now = Inl InsufficientFunds \<and> exec owner s (Buy dealId u now) = s"
      by (simp add: b exec_def)
    have C: "status d = ''open'' \<and> price d \<le> balance_of s u \<longrightarrow>
               (\<exists>s'. buy s dealId u now = Inr s'
                  \<and> balance_of s' u = num8 (minus64 (balance_of s u) (price d))
                  \<and> toFixed8 (balance_of s' u) = toFixed8 (balance_of s u) - toFixed8 (price d)
                  \<and> (\<forall>v. v \<noteq> u \<longrightarrow> balance_of s' v = balance_of s v)
                  \<and> map_of (deals s') dealId =
                      Some (d\<lparr>buyer := Some u, locked := price d, status := ''in_progress'',
                              locked_at := Some now\<rparr>)
                  \<and> (\<forall>k. k \<noteq> dealId \<longrightarrow> map_of (deals s') k = map_of (deals s) k))"
    proof
      assume h: "status d = ''open'' \<and> price d \<le> balance_of s u"
      define s' where "s' = s\<lparr>balances := AList.update u
                      (num8 (minus64 (balance_of s u) (price d))) (balances s),
                    deals := AList.update dealId
                      (d\<lparr>buyer := Some u, locked := price d, status := ''in_progress'',
                         locked_at := Some now\<rparr>) (deals s)\<rparr>"
      from h have 1: "buy s dealId u now = Inr s'"
        by (simp add: b s'_def)
      have 2: "balance_of s' u = num8 (minus64 (balance_of s u) (price d))"
        by (simp add: s'_def balance_of_balances_update)
      from h have "price d \<le> balance_of s u" by simp
      from debit_price_exact(1) [OF assms d this]
      have 3: "toFixed8 (balance_of s' u) = toFixed8 (balance_of s u) - toFixed8 (price d)"
        by (simp add: 2)
      have 4: "\<forall>v. v \<noteq> u \<longrightarrow> balance_of s' v = balance_of s v"
        by (simp add: s'_def balance_of_balances_update)
      have 5: "map_of (deals s') dealId =
                     Some (d\<lparr>buyer := Some u, locked := price d, status := ''in_progress'',
                             locked_at := Some now\<rparr>)"
        by (simp add: s'_def update_conv')
      have 6: "\<forall>k. k \<noteq> dealId \<longrightarrow> map_of (deals s') k = map_of (deals s) k"
        by (simp add: s'_def update_conv')
      from 1 2 3 4 5 6 show "\<exists>s'. buy s dealId u now = Inr s'
                  \<and> balance_of s' u = num8 (minus64 (balance_of s u) (price d))
                  \<and> toFixed8 (balance_of s' u) = toFixed8 (balance_of s u) - toFixed8 (price d)
                  \<and> (\<forall>v. v \<noteq> u \<longrightarrow> balance_of s' v = balance_of s v)
                  \<and> map_of (deals s') dealId =
                      Some (d\<lparr>buyer := Some u, locked := price d, status := ''in_progress'',
                              locked_at := Some now\<rparr>)
                  \<and> (\<forall>k. k \<noteq> dealId \<longrightarrow> map_of (deals s') k = map_of (deals s) k)"
        by blast
    qed
    have D: "\<forall>s'. buy s dealId u now = Inr s' \<longrightarrow>
                 status d = ''open'' \<and> price d \<le> balance_of s u"
      by (simp add: b split: if_splits)
    from A B C D show "(status d \<noteq> ''open'' \<longrightarrow>
               buy s dealId u now = Inl InvalidState \<and> exec owner s (Buy dealId u now) = s)
          \<and> (status d = ''open'' \<and> balance_of s u < price d \<longrightarrow>
               buy s dealId u now = Inl InsufficientFunds \<and> exec owner s (Buy dealId u now) = s)
          \<and> (status d = ''open'' \<and> price d \<le> balance_of s u \<longrightarrow>
               (\<exists>s'. buy s dealId u now = Inr s'
                  \<and> balance_of s' u = num8 (minus64 (balance_of s u) (price d))
                  \<and> toFixed8 (balance_of s' u) = toFixed8 (balance_of s u) - toFixed8 (price d)
                  \<and> (\<forall>v. v \<noteq> u \<longrightarrow> balance_of s' v = balance_of s v)
                  \<and> map_of (deals s') dealId =
                      Some (d\<lparr>buyer := Some u, locked := price d, status := ''in_progress'',
                              locked_at := Some now\<rparr>)
                  \<and> (\<forall>k. k \<noteq> dealId \<longrightarrow> map_of (deals s') k = map_of (deals s) k)))
          \<and> (\<forall>s'. buy s dealId u now = Inr s' \<longrightarrow>
                 status d = ''open'' \<and> price d \<le> balance_of s u)"
      by (intro conjI)
  qed
  from M I S show ?thesis by (intro conjI)
qed

lemma deals_get_scenario:
  "deals_get s_open ''#B1000'' = Missing" "deals_get s_open ''constructor'' = Inherited"
  "deals_get s_bought ''#B1000'' = Missing" "deals_get s_bought ''constructor'' = Inherited"
  "deals_get s_sent ''#B1000'' = Missing" "deals_get s_sent ''constructor'' = Inherited"
  by (simp_all add: deals_get_def inherited_keys_def scenario_defs)

theorem C5_buy_witness:
  "ledger_ok s_open \<and> map_of (deals s_open) ''#A7342'' = Some golden
   \<and> buy s_open ''#A7342'' 2 ''t1'' = Inr s_bought
   \<and> toFixed8 (balance_of s_bought 2) = toFixed8 (balance_of s_open 2) - toFixed8 (price golden)
   \<and> buy s_open ''#A7342'' 3 ''t1'' = Inl InsufficientFunds
   \<and> buy s_done ''#A7342'' 3 ''t5'' = Inl InvalidState
   \<and> deals_get s_open ''#B1000'' = Missing
   \<and> buy s_open ''#B1000'' 2 ''t1'' = Inl NotFound
   \<and> deals_get s_open ''constructor'' = Inherited
   \<and> buy s_open ''constructor'' 2 ''t1'' = Inl InvalidState"
proof -
  note ok = C5_buy [OF ledger_ok_scenario(1), of "''#A7342''" 2 "''t1''" 9]
  note low = C5_buy [OF ledger_ok_scenario(1), of "''#A7342''" 3 "''t1''" 9]
  note closed = C5_buy [OF ledger_ok_scenario(4), of "''#A7342''" 3 "''t5''" 9]
  note missing = C5_buy [OF ledger_ok_scenario(1), of "''#B1000''" 2 "''t1''" 9]
  note inherited = C5_buy [OF ledger_ok_scenario(1), of "''constructor''" 2 "''t1''" 9]
  have h2: "status golden = ''open'' \<and> price golden \<le> balance_of s_open 2"
    by (simp add: scenario_defs balance_of_def)
  have h3: "status golden = ''open'' \<and> balance_of s_open 3 < price golden"
    by (simp add: scenario_defs balance_of_def)
  have h4: "status (golden\<lparr>buyer := Some 2, locked := 0, status := ''done'',
      locked_at := Some ''t1'', sent_at := Some ''t2'', completed_at := Some ''t3''\<rparr>) \<noteq> ''open''"
    by simp
  from ok deals_scenario(1) h2 obtain s' where "buy s_open ''#A7342'' 2 ''t1'' = Inr s'"
    and "toFixed8 (balance_of s' 2) = toFixed8 (balance_of s_open 2) - toFixed8 (price golden)"
    by blast
  then have "toFixed8 (balance_of s_bought 2)
      = toFixed8 (balance_of s_open 2) - toFixed8 (price golden)"
    by (simp add: buy_s_open)
  moreover from low deals_scenario(1) h3
  have "buy s_open ''#A7342'' 3 ''t1'' = Inl InsufficientFunds"
    by blast
  moreover from closed deals_scenario(4) h4
  have "buy s_done ''#A7342'' 3 ''t5'' = Inl InvalidState"
    by blast
  moreover from missing deals_get_scenario(1)
  have "buy s_open ''#B1000'' 2 ''t1'' = Inl NotFound"
    by blast
  moreover from inherited deals_get_scenario(2)
  have "buy s_open ''constructor'' 2 ''t1'' = Inl InvalidState"
    by blast
  ultimately show ?thesis
    using ledger_ok_scenario(1) deals_scenario(1) buy_s_open deals_get_scenario(1,2) by blast
qed

text \<open>
  Users 1 and 2 are given a billion each, and user 2 buys a deal of seller 1 whose price
  is 0.00000001: the purchase succeeds and locks the price, and the balance of user 2 is
  the billion it was, since \<^verbatim>\<open>1000000000 - 0.00000001\<close> is \<^verbatim>\<open>1000000000\<close> in
  binary64.
\<close>

theorem C5_buy_counterexample:
  "run 9 state_init
     [AdminCredit 9 (Some (2, Some 1000000000)), AdminCredit 9 (Some (1, Some 1000000000)),
      CreateDeal 1 (Some ''NFT'') ''Golden Gift'' ''rare'' (Some (1 / 100000000)) ''t0'']
     = s_big_open
   \<and> map_of (deals s_big_open) ''#A7342'' = Some (golden\<lparr>price := dust\<rparr>)
   \<and> 0 < dust \<and> toFixed8 dust = 1 / 100000000
   \<and> buy s_big_open ''#A7342'' 2 ''t1'' = Inr s_big_bought
   \<and> balance_of s_big_open 2 = 1000000000
   \<and> balance_of s_big_bought 2 = 1000000000"
  using run_big buy_s_big_open big_examples(6,7)
  by (simp add: s_big_open_def s_big_bought_def balance_of_def)

text \<open>
  C10. The buyer of a deal may be its seller: on an open deal whose price the seller's
  own balance covers, the purchase by the seller succeeds, records the seller as the
  buyer, locks the price and debits the seller, as it does for any other user.
\<close>

theorem C10_seller_buys_own_deal:
  assumes "map_of (deals s) dealId = Some d" and "status d = ''open''"
    and "price d \<le> balance_of s (seller d)"
  shows "\<exists>s' d'. buy s dealId (seller d) now = Inr s'
           \<and> map_of (deals s') dealId = Some d'
           \<and> seller d' = seller d \<and> buyer d' = Some (seller d)
           \<and> locked d' = price d \<and> status d' = ''in_progress''
           \<and> balance_of s' (seller d) = num8 (minus64 (balance_of s (seller d)) (price d))
           \<and> (\<forall>u. price d \<le> balance_of s u \<longrightarrow>
                  buy s dealId u now =
                    Inr (s\<lparr>balances := AList.update u
                              (num8 (minus64 (balance_of s u) (price d))) (balances s),
                           deals := AList.update dealId
                             (d\<lparr>buyer := Some u, locked := price d, status := ''in_progress'',
                                locked_at := Some now\<rparr>) (deals s)\<rparr>))"
proof -
  define d' where "d' = d\<lparr>buyer := Some (seller d), locked := price d,
      status := ''in_progress'', locked_at := Some now\<rparr>"
  define s' where "s' = s\<lparr>balances := AList.update (seller d)
      (num8 (minus64 (balance_of s (seller d)) (price d))) (balances s),
      deals := AList.update dealId d' (deals s)\<rparr>"
  have 1: "buy s dealId (seller d) now = Inr s'"
    using assms(2,3) by (simp add: buy_result [OF assms(1)] s'_def d'_def)
  have 2: "map_of (deals s') dealId = Some d'"
    by (simp add: s'_def update_conv')
  have 3: "seller d' = seller d \<and> buyer d' = Some (seller d) \<and> locked d' = price d
      \<and> status d' = ''in_progress''"
    by (simp add: d'_def)
  have 4: "balance_of s' (seller d) = num8 (minus64 (balance_of s (seller d)) (price d))"
    by (simp add: s'_def balance_of_balances_update)
  have 5: "\<forall>u. price d \<le> balance_of s u \<longrightarrow>
                  buy s dealId u now =
                    Inr (s\<lparr>balances := AList.update u
                              (num8 (minus64 (balance_of s u) (price d))) (balances s),
                           deals := AList.update dealId
                             (d\<lparr>buyer := Some u, locked := price d, status := ''in_progress'',
                                locked_at := Some now\<rparr>) (deals s)\<rparr>)"
    using assms(2) by (simp add: buy_result [OF assms(1)])
  from 1 2 3 4 5 show ?thesis by blast
qed

theorem C10_seller_buys_own_deal_witness:
  "map_of (deals (s_open\<lparr>balances := [(1, 30)]\<rparr>)) ''#A7342'' = Some golden
   \<and> status golden = ''open''
   \<and> price golden \<le> balance_of (s_open\<lparr>balances := [(1, 30)]\<rparr>) (seller golden)
   \<and> buy (s_open\<lparr>balances := [(1, 30)]\<rparr>) ''#A7342'' (seller golden) ''t1'' =
       Inr (s_open\<lparr>balances := [(1, 35 / 2)],
              deals := [(''#A7342'', golden\<lparr>buyer := Some 1, locked := 25 / 2,
                           status := ''in_progress'', locked_at := Some ''t1''\<rparr>)]\<rparr>)"
proof -
  have h1: "map_of (deals (s_open\<lparr>balances := [(1, 30)]\<rparr>)) ''#A7342'' = Some golden"
    by (simp add: scenario_defs)
  have h2: "status golden = ''open''"
    by (simp add: scenario_defs)
  have h3: "price golden \<le> balance_of (s_open\<lparr>balances := [(1, 30)]\<rparr>) (seller golden)"
    by (simp add: scenario_defs balance_of_def)
  have u: "price golden \<le> balance_of (s_open\<lparr>balances := [(1, 30)]\<rparr>) 1"
    by (simp add: scenario_defs balance_of_def)
  from C10_seller_buys_own_deal [OF h1 h2 h3, of "''t1''"] u
  have "buy (s_open\<lparr>balances := [(1, 30)]\<rparr>) ''#A7342'' 1 ''t1'' =
      Inr (s_open\<lparr>balances := [(1, 30)]\<rparr>
        \<lparr>balances := AList.update 1
            (num8 (minus64 (balance_of (s_open\<lparr>balances := [(1, 30)]\<rparr>) 1) (price golden)))
            (balances (s_open\<lparr>balances := [(1, 30)]\<rparr>)),
         deals := AList.update ''#A7342''
            (golden\<lparr>buyer := Some 1, locked := price golden, status := ''in_progress'',
               locked_at := Some ''t1''\<rparr>) (deals (s_open\<lparr>balances := [(1, 30)]\<rparr>))\<rparr>)"
    by blast
  then have "buy (s_open\<lparr>balances := [(1, 30)]\<rparr>) ''#A7342'' (seller golden) ''t1'' =
       Inr (s_open\<lparr>balances := [(1, 35 / 2)],
              deals := [(''#A7342'', golden\<lparr>buyer := Some 1, locked := 25 / 2,
                           status := ''in_progress'', locked_at := Some ''t1''\<rparr>)]\<rparr>)"
    by (simp add: scenario_defs balance_of_def num8_examples)
  with h1 h2 h3 show ?thesis by blast
qed

subsection \<open>Marking a deal sent\<close>

text \<open>
  C4, as the code has it. Marking a deal sent looks at neither the user who presses nor
  the status: for every stored deal it succeeds, sets the status to
  \<open>sent_to_support\<close> and the time of sending, and changes nothing else. For an id
  that is neither stored nor inherited it is refused with NotFound and no change. For a
  key inherited from \<^verbatim>\<open>Object.prototype\<close> it succeeds as well and writes on the
  inherited object, leaving the balances, the deals and the log alone; for a string
  inherited after such a write it throws and changes nothing. There is no refusal for a
  wrong user or a wrong status.
\<close>

theorem C4_markSent:
  "(deals_get s dealId = Missing \<longrightarrow>
      seller_sent s dealId actor now = Inl NotFound \<and> exec owner s (MarkSent dealId actor now) = s)
   \<and> (deals_get s dealId = Written \<longrightarrow>
      seller_sent s dealId actor now = Inl Thrown \<and> exec owner s (MarkSent dealId actor now) = s)
   \<and> (deals_get s dealId = Inherited \<longrightarrow>
      seller_sent s dealId actor now =
        Inr (s\<lparr>proto_sent := AList.update dealId now (proto_sent s)\<rparr>))
   \<and> (\<forall>d. map_of (deals s) dealId = Some d \<longrightarrow>
        (\<exists>s'. seller_sent s dealId actor now = Inr s'
           \<and> map_of (deals s') dealId = Some (d\<lparr>status := ''sent_to_support'', sent_at := Some now\<rparr>)
           \<and> (\<forall>k. k \<noteq> dealId \<longrightarrow> map_of (deals s') k = map_of (deals s) k)
           \<and> balances s' = balances s \<and> logs s' = logs s \<and> seq s' = seq s
           \<and> proto_sent s' = proto_sent s))"
proof -
  have M: "deals_get s dealId = Missing \<longrightarrow>
      seller_sent s dealId actor now = Inl NotFound \<and> exec owner s (MarkSent dealId actor now) = s"
    by (simp add: seller_sent_def exec_def)
  have W: "deals_get s dealId = Written \<longrightarrow>
      seller_sent s dealId actor now = Inl Thrown \<and> exec owner s (MarkSent dealId actor now) = s"
    by (simp add: seller_sent_def exec_def)
  have I: "deals_get s dealId = Inherited \<longrightarrow>
      seller_sent s dealId actor now =
        Inr (s\<lparr>proto_sent := AList.update dealId now (proto_sent s)\<rparr>)"
    by (simp add: seller_sent_def)
  have S: "\<forall>d. map_of (deals s) dealId = Some d \<longrightarrow>
        (\<exists>s'. seller_sent s dealId actor now = Inr s'
           \<and> map_of (deals s') dealId = Some (d\<lparr>status := ''sent_to_support'', sent_at := Some now\<rparr>)
           \<and> (\<forall>k. k \<noteq> dealId \<longrightarrow> map_of (deals s') k = map_of (deals s) k)
           \<and> balances s' = balances s \<and> logs s' = logs s \<and> seq s' = seq s
           \<and> proto_sent s' = proto_sent s)"
    by (simp add: seller_sent_result update_conv')
  from M W I S show ?thesis by (intro conjI)
qed

lemma deals_get_written:
  "deals_get (s_bought\<lparr>proto_sent := [(''__proto__'', ''t2'')]\<rparr>) ''status'' = Written"
  by (simp add: deals_get_def inherited_keys_def scenario_defs)

theorem C4_markSent_witness:
  "map_of (deals s_bought) ''#A7342'' = Some (golden\<lparr>buyer := Some 2, locked := 25 / 2,
       status := ''in_progress'', locked_at := Some ''t1''\<rparr>)
   \<and> seller_sent s_bought ''#A7342'' 1 ''t2'' = Inr s_sent
   \<and> map_of (deals s_sent) ''#A7342'' = Some (golden\<lparr>buyer := Some 2, locked := 25 / 2,
       status := ''in_progress'', locked_at := Some ''t1'',
       status := ''sent_to_support'', sent_at := Some ''t2''\<rparr>)
   \<and> deals_get s_bought ''#B1000'' = Missing
   \<and> seller_sent s_bought ''#B1000'' 1 ''t2'' = Inl NotFound
   \<and> deals_get s_bought ''constructor'' = Inherited
   \<and> seller_sent s_bought ''constructor'' 3 ''t2'' =
       Inr (s_bought\<lparr>proto_sent := AList.update ''constructor'' ''t2'' (proto_sent s_bought)\<rparr>)
   \<and> deals_get (s_bought\<lparr>proto_sent := [(''__proto__'', ''t2'')]\<rparr>) ''status'' = Written
   \<and> seller_sent (s_bought\<lparr>proto_sent := [(''__proto__'', ''t2'')]\<rparr>) ''status'' 3 ''t3''
       = Inl Thrown"
proof -
  from C4_markSent [of s_bought "''#B1000''" 1 "''t2''" 9] deals_get_scenario(3)
  have nf: "seller_sent s_bought ''#B1000'' 1 ''t2'' = Inl NotFound"
    by blast
  from C4_markSent [of s_bought "''constructor''" 3 "''t2''" 9] deals_get_scenario(4)
  have inh: "seller_sent s_bought ''constructor'' 3 ''t2'' =
       Inr (s_bought\<lparr>proto_sent := AList.update ''constructor'' ''t2'' (proto_sent s_bought)\<rparr>)"
    by blast
  from C4_markSent [of "s_bought\<lparr>proto_sent := [(''__proto__'', ''t2'')]\<rparr>" "''status''" 3
      "''t3''" 9] deals_get_written
  have wr: "seller_sent (s_bought\<lparr>proto_sent := [(''__proto__'', ''t2'')]\<rparr>) ''status'' 3 ''t3''
       = Inl Thrown"
    by blast
  from C4_markSent [of s_bought "''#A7342''" 1 "''t2''" 9] deals_scenario(2)
  obtain s' where "seller_sent s_bought ''#A7342'' 1 ''t2'' = Inr s'"
    and "map_of (deals s') ''#A7342'' = Some (golden\<lparr>buyer := Some 2, locked := 25 / 2,
       status := ''in_progress'', locked_at := Some ''t1'',
       status := ''sent_to_support'', sent_at := Some ''t2''\<rparr>)"
    by blast
  then have "map_of (deals s_sent) ''#A7342'' = Some (golden\<lparr>buyer := Some 2, locked := 25 / 2,
       status := ''in_progress'', locked_at := Some ''t1'',
       status := ''sent_to_support'', sent_at := Some ''t2''\<rparr>)"
    by (simp add: seller_sent_s_bought)
  with nf inh wr deals_scenario(2) seller_sent_s_bought deals_get_scenario(3,4) deals_get_written
  show ?thesis by blast
qed

text \<open>
  A user who is not the seller marks a deal sent that nobody has bought: the call
  succeeds and the deal changes.
\<close>

theorem C4_markSent_counterexample:
  "status golden = ''open'' \<and> seller golden \<noteq> 3
   \<and> map_of (deals s_open) ''#A7342'' = Some golden
   \<and> seller_sent s_open ''#A7342'' 3 ''t2'' =
       Inr (s_open\<lparr>deals := [(''#A7342'',
              golden\<lparr>status := ''sent_to_support'', sent_at := Some ''t2''\<rparr>)]\<rparr>)"
  by (simp add: seller_sent_def deals_get_id scenario_defs)

subsection \<open>Reporting a problem\<close>

text \<open>
  C6, as the code has it. Reporting a problem changes nothing, whoever reports and
  whatever the status: the status of the deal stays what it was, and no balance and no
  locked amount changes. The call succeeds for every stored deal and for every
  inherited key; it is refused with NotFound for an id that is neither.
\<close>

theorem C6_reportProblem:
  "(deals_get s dealId = Missing \<longrightarrow> buyer_problem s dealId actor = Inl NotFound)
   \<and> (deals_get s dealId \<noteq> Missing \<longrightarrow> buyer_problem s dealId actor = Inr s)
   \<and> (\<forall>d. map_of (deals s) dealId = Some d \<longrightarrow> buyer_problem s dealId actor = Inr s)
   \<and> exec owner s (ReportProblem dealId actor) = s"
  by (auto simp: buyer_problem_def exec_def deals_get_stored split: found.splits)

theorem C6_reportProblem_witness:
  "map_of (deals s_bought) ''#A7342'' \<noteq> None
   \<and> buyer_problem s_bought ''#A7342'' 2 = Inr s_bought
   \<and> exec 9 s_bought (ReportProblem ''#A7342'' 2) = s_bought
   \<and> deals_get s_bought ''#B1000'' = Missing
   \<and> buyer_problem s_bought ''#B1000'' 2 = Inl NotFound
   \<and> deals_get s_bought ''constructor'' \<noteq> Missing
   \<and> buyer_problem s_bought ''constructor'' 2 = Inr s_bought"
proof -
  from C6_reportProblem [of s_bought "''#B1000''" 2 9] deals_get_scenario(3)
  have 1: "buyer_problem s_bought ''#B1000'' 2 = Inl NotFound"
    by blast
  have i: "deals_get s_bought ''constructor'' \<noteq> Missing"
    by (simp add: deals_get_scenario)
  with C6_reportProblem [of s_bought "''constructor''" 2 9]
  have 2: "buyer_problem s_bought ''constructor'' 2 = Inr s_bought"
    by blast
  from C6_reportProblem [of s_bought "''#A7342''" 2 9] deals_scenario(2)
  have 3: "buyer_problem s_bought ''#A7342'' 2 = Inr s_bought"
    and 4: "exec 9 s_bought (ReportProblem ''#A7342'' 2) = s_bought"
    by blast+
  have "map_of (deals s_bought) ''#A7342'' \<noteq> None"
    by (simp add: deals_scenario)
  with 1 2 3 4 i deals_get_scenario(3) show ?thesis by blast
qed

text \<open>
  The buyer reports a problem on the deal in progress: the status is still
  \<open>in_progress\<close>, not \<open>disputed\<close>.
\<close>

theorem C6_reportProblem_counterexample:
  "map_of (deals s_bought) ''#A7342'' = Some (golden\<lparr>buyer := Some 2, locked := 25 / 2,
       status := ''in_progress'', locked_at := Some ''t1''\<rparr>)
   \<and> buyer_problem s_bought ''#A7342'' 2 = Inr s_bought
   \<and> map_of (deals (exec 9 s_bought (ReportProblem ''#A7342'' 2))) ''#A7342''
       \<noteq> Some (golden\<lparr>buyer := Some 2, locked := 25 / 2,
       status := ''disputed'', locked_at := Some ''t1''\<rparr>)
   \<and> status (golden\<lparr>buyer := Some 2, locked := 25 / 2,
       status := ''in_progress'', locked_at := Some ''t1''\<rparr>) \<noteq> ''disputed''"
  by (simp add: buyer_problem_def deals_get_id exec_def scenario_defs)

subsection \<open>Confirming the receipt\<close>

lemma credit_locked_exact:
  assumes "ledger_ok s" and "map_of (deals s) dealId = Some d"
  shows "toFixed8 (num8 (plus64 (balance_of s u) (locked d)))
       = toFixed8 (balance_of s u) + toFixed8 (locked d)"
    and "amount_ok (num8 (plus64 (balance_of s u) (locked d)))"
proof -
  from deal_ok_lookup [OF assms] have l: "amount_ok (locked d)"
    by (simp add: deal_ok_def)
  from ledger_ok_totals(3) [OF assms(1), of u] ledger_ok_totals(4) [OF assms(1,2)] assms(1)
  have "toFixed8 (balance_of s u) + toFixed8 (locked d) \<le> 10000000"
    by (simp add: ledger_ok_def total_funds_def)
  from credit_exact(2,3) [OF amount_ok_balance_of [OF assms(1)] l this]
  show "toFixed8 (num8 (plus64 (balance_of s u) (locked d)))
       = toFixed8 (balance_of s u) + toFixed8 (locked d)"
    and "amount_ok (num8 (plus64 (balance_of s u) (locked d)))"
    by (simp_all add: plus64_def)
qed

lemma credit_nothing: "amount_ok b \<Longrightarrow> num8 (plus64 b 0) = b"
proof -
  assume b: "amount_ok b"
  then have "toFixed8 b + toFixed8 0 \<le> 10000000"
    by (simp add: amount_ok_def toFixed8_0)
  from credit_exact(1) [OF b amount_ok_0 this] b show ?thesis
    by (simp add: num8_def plus64_def toFixed8_0 amount_ok_def)
qed

lemma buyer_received_deal:
  assumes "map_of (deals s) dealId = Some d" and "\<not> no_buyer d"
  shows "\<exists>s'. buyer_received s dealId actor now = Inr s'
     \<and> balance_of s' (seller d) = num8 (plus64 (balance_of s (seller d)) (locked d))
     \<and> map_of (balances s') (seller d) = Some (num8 (plus64 (balance_of s (seller d)) (locked d)))
     \<and> (\<forall>v. v \<noteq> seller d \<longrightarrow> balance_of s' v = balance_of s v)
     \<and> map_of (deals s') dealId = Some (d\<lparr>status := ''done'', completed_at := Some now, locked := 0\<rparr>)
     \<and> (\<forall>k. k \<noteq> dealId \<longrightarrow> map_of (deals s') k = map_of (deals s) k)
     \<and> map_of (logs s') dealId =
          Some \<lparr>log_id = dealId, log_seller = seller d, log_buyer = buyer d,
                log_amount = locked d, log_title = title d, log_desc = desc d,
                log_completed_at = Some now\<rparr>
     \<and> (\<forall>k. k \<noteq> dealId \<longrightarrow> map_of (logs s') k = map_of (logs s) k)
     \<and> seq s' = seq s
     \<and> balances s' = AList.update (seller d)
          (num8 (plus64 (balance_of s (seller d)) (locked d))) (balances s)"
  using assms(2)
  by (simp add: buyer_received_result [OF assms(1)] balance_of_balances_update update_conv')

text \<open>
  C3, as the code has it. Confirming the receipt looks at neither the user who presses
  nor the status: it succeeds for every stored deal that has a buyer. It then stores
  \<^verbatim>\<open>Number((balance + locked).toFixed(8))\<close> as the seller's balance, which in a sound
  ledger is the balance plus the locked amount in 8 decimals, sets \<open>locked\<close> to 0,
  the status to \<open>done\<close> and the time of completion, and stores the completion record
  under the deal id, replacing an earlier one; nothing else in the balances, the deals
  and the log changes. It is refused, with no change, only when the id is neither
  stored nor inherited (NotFound), or is an inherited key or a deal without a buyer
  (NoBuyer).
\<close>

theorem C3_confirmReceived:
  "(deals_get s dealId = Missing \<longrightarrow>
      buyer_received s dealId actor now = Inl NotFound
      \<and> exec owner s (ConfirmReceived dealId actor now) = s)
   \<and> (deals_get s dealId = Inherited \<or> deals_get s dealId = Written \<longrightarrow>
      buyer_received s dealId actor now = Inl NoBuyer
      \<and> exec owner s (ConfirmReceived dealId actor now) = s)
   \<and> (\<forall>d. map_of (deals s) dealId = Some d \<and> no_buyer d \<longrightarrow>
        buyer_received s dealId actor now = Inl NoBuyer
        \<and> exec owner s (ConfirmReceived dealId actor now) = s)
   \<and> (\<forall>d. map_of (deals s) dealId = Some d \<and> \<not> no_buyer d \<longrightarrow>
        (\<exists>s'. buyer_received s dealId actor now = Inr s'
           \<and> balance_of s' (seller d) = num8 (plus64 (balance_of s (seller d)) (locked d))
           \<and> (ledger_ok s \<longrightarrow>
                toFixed8 (balance_of s' (seller d))
                  = toFixed8 (balance_of s (seller d)) + toFixed8 (locked d))
           \<and> (\<forall>v. v \<noteq> seller d \<longrightarrow> balance_of s' v = balance_of s v)
           \<and> map_of (deals s') dealId =
                Some (d\<lparr>status := ''done'', completed_at := Some now, locked := 0\<rparr>)
           \<and> (\<forall>k. k \<noteq> dealId \<longrightarrow> map_of (deals s') k = map_of (deals s) k)
           \<and> map_of (logs s') dealId =
                Some \<lparr>log_id = dealId, log_seller = seller d, log_buyer = buyer d,
                      log_amount = locked d, log_title = title d, log_desc = desc d,
                      log_completed_at = Some now\<rparr>
           \<and> (\<forall>k. k \<noteq> dealId \<longrightarrow> map_of (logs s') k = map_of (logs s) k)))"
proof -
  have M: "deals_get s dealId = Missing \<longrightarrow>
      buyer_received s dealId actor now = Inl NotFound
      \<and> exec owner s (ConfirmReceived dealId actor now) = s"
    by (simp add: buyer_received_def exec_def)
  have I: "deals_get s dealId = Inherited \<or> deals_get s dealId = Written \<longrightarrow>
      buyer_received s dealId actor now = Inl NoBuyer
      \<and> exec owner s (ConfirmReceived dealId actor now) = s"
    by (auto simp: buyer_received_def exec_def)
  have B: "\<forall>d. map_of (deals s) dealId = Some d \<and> no_buyer d \<longrightarrow>
        buyer_received s dealId actor now = Inl NoBuyer
        \<and> exec owner s (ConfirmReceived dealId actor now) = s"
    by (simp add: buyer_received_result exec_def)
  have C: "\<forall>d. map_of (deals s) dealId = Some d \<and> \<not> no_buyer d \<longrightarrow>
        (\<exists>s'. buyer_received s dealId actor now = Inr s'
           \<and> balance_of s' (seller d) = num8 (plus64 (balance_of s (seller d)) (locked d))
           \<and> (ledger_ok s \<longrightarrow>
                toFixed8 (balance_of s' (seller d))
                  = toFixed8 (balance_of s (seller d)) + toFixed8 (locked d))
           \<and> (\<forall>v. v \<noteq> seller d \<longrightarrow> balance_of s' v = balance_of s v)
           \<and> map_of (deals s') dealId =
                Some (d\<lparr>status := ''done'', completed_at := Some now, locked := 0\<rparr>)
           \<and> (\<forall>k. k \<noteq> dealId \<longrightarrow> map_of (deals s') k = map_of (deals s) k)
           \<and> map_of (logs s') dealId =
                Some \<lparr>log_id = dealId, log_seller = seller d, log_buyer = buyer d,
                      log_amount = locked d, log_title = title d, log_desc = desc d,
                      log_completed_at = Some now\<rparr>
           \<and> (\<forall>k. k \<noteq> dealId \<longrightarrow> map_of (logs s') k = map_of (logs s) k))"
  proof (intro allI impI)
    fix d assume "map_of (deals s) dealId = Some d \<and> \<not> no_buyer d"
    then have d: "map_of (deals s) dealId = Some d" and b: "\<not> no_buyer d" by simp_all
    from buyer_received_deal [OF d b, of actor now]
    obtain s' where 1: "buyer_received s dealId actor now = Inr s'"
      and 2: "balance_of s' (seller d) = num8 (plus64 (balance_of s (seller d)) (locked d))"
      and 3: "\<forall>v. v \<noteq> seller d \<longrightarrow> balance_of s' v = balance_of s v"
      and 4: "map_of (deals s') dealId =
                Some (d\<lparr>status := ''done'', completed_at := Some now, locked := 0\<rparr>)"
      and 5: "\<forall>k. k \<noteq> dealId \<longrightarrow> map_of (deals s') k = map_of (deals s) k"
      and 6: "map_of (logs s') dealId =
                Some \<lparr>log_id = dealId, log_seller = seller d, log_buyer = buyer d,
                      log_amount = locked d, log_title = title d, log_desc = desc d,
                      log_completed_at = Some now\<rparr>"
      and 7: "\<forall>k. k \<noteq> dealId \<longrightarrow> map_of (logs s') k = map_of (logs s) k"
      by blast
    have 8: "ledger_ok s \<longrightarrow>
                toFixed8 (balance_of s' (seller d))
                  = toFixed8 (balance_of s (seller d)) + toFixed8 (locked d)"
      using credit_locked_exact(1) [OF _ d, of "seller d"] by (simp add: 2)
    from 1 2 3 4 5 6 7 8
    show "\<exists>s'. buyer_received s dealId actor now = Inr s'
           \<and> balance_of s' (seller d) = num8 (plus64 (balance_of s (seller d)) (locked d))
           \<and> (ledger_ok s \<longrightarrow>
                toFixed8 (balance_of s' (seller d))
                  = toFixed8 (balance_of s (seller d)) + toFixed8 (locked d))
           \<and> (\<forall>v. v \<noteq> seller d \<longrightarrow> balance_of s' v = balance_of s v)
           \<and> map_of (deals s') dealId =
                Some (d\<lparr>status := ''done'', completed_at := Some now, locked := 0\<rparr>)
           \<and> (\<forall>k. k \<noteq> dealId \<longrightarrow> map_of (deals s') k = map_of (deals s) k)
           \<and> map_of (logs s') dealId =
                Some \<lparr>log_id = dealId, log_seller = seller d, log_buyer = buyer d,
                      log_amount = locked d, log_title = title d, log_desc = desc d,
                      log_completed_at = Some now\<rparr>
           \<and> (\<forall>k. k \<noteq> dealId \<longrightarrow> map_of (logs s') k = map_of (logs s) k)"
      by blast
  qed
  from M I B C show ?thesis by (intro conjI)
qed

theorem C3_confirmReceived_witness:
  "map_of (deals s_sent) ''#A7342'' = Some (golden\<lparr>buyer := Some 2, locked := 25 / 2,
       status := ''sent_to_support'', locked_at := Some ''t1'', sent_at := Some ''t2''\<rparr>)
   \<and> ledger_ok s_sent
   \<and> buyer_received s_sent ''#A7342'' 2 ''t3'' = Inr s_done
   \<and> toFixed8 (balance_of s_done 1) = toFixed8 (balance_of s_sent 1) + toFixed8 (25 / 2)
   \<and> map_of (deals s_open) ''#A7342'' = Some golden \<and> no_buyer golden
   \<and> buyer_received s_open ''#A7342'' 2 ''t3'' = Inl NoBuyer
   \<and> deals_get s_sent ''#B1000'' = Missing
   \<and> buyer_received s_sent ''#B1000'' 2 ''t3'' = Inl NotFound
   \<and> deals_get s_sent ''constructor'' = Inherited
   \<and> buyer_received s_sent ''constructor'' 2 ''t3'' = Inl NoBuyer"
proof -
  have b: "\<not> no_buyer (golden\<lparr>buyer := Some 2, locked := 25 / 2,
       status := ''sent_to_support'', locked_at := Some ''t1'', sent_at := Some ''t2''\<rparr>)"
    by (simp add: no_buyer_def)
  from C3_confirmReceived [of s_sent "''#A7342''" 2 "''t3''" 9] deals_scenario(3) b
    ledger_ok_scenario(3)
  obtain s' where "buyer_received s_sent ''#A7342'' 2 ''t3'' = Inr s'"
    and "toFixed8 (balance_of s' (seller (golden\<lparr>buyer := Some 2, locked := 25 / 2,
       status := ''sent_to_support'', locked_at := Some ''t1'', sent_at := Some ''t2''\<rparr>))) =
      toFixed8 (balance_of s_sent (seller (golden\<lparr>buyer := Some 2, locked := 25 / 2,
       status := ''sent_to_support'', locked_at := Some ''t1'', sent_at := Some ''t2''\<rparr>)))
       + toFixed8 (locked (golden\<lparr>buyer := Some 2, locked := 25 / 2,
       status := ''sent_to_support'', locked_at := Some ''t1'', sent_at := Some ''t2''\<rparr>))"
    by blast
  then have 1: "toFixed8 (balance_of s_done 1) = toFixed8 (balance_of s_sent 1) + toFixed8 (25 / 2)"
    by (simp add: buyer_received_s_sent golden_def)
  have nb: "no_buyer golden"
    by (simp add: no_buyer_def golden_def)
  with C3_confirmReceived [of s_open "''#A7342''" 2 "''t3''" 9] deals_scenario(1)
  have 2: "buyer_received s_open ''#A7342'' 2 ''t3'' = Inl NoBuyer"
    by blast
  from C3_confirmReceived [of s_sent "''#B1000''" 2 "''t3''" 9] deals_get_scenario(5)
  have 3: "buyer_received s_sent ''#B1000'' 2 ''t3'' = Inl NotFound"
    by blast
  from C3_confirmReceived [of s_sent "''constructor''" 2 "''t3''" 9] deals_get_scenario(6)
  have 4: "buyer_received s_sent ''constructor'' 2 ''t3'' = Inl NoBuyer"
    by blast
  from 1 2 3 4 nb deals_scenario(1,3) buyer_received_s_sent ledger_ok_scenario(3)
    deals_get_scenario(5,6)
  show ?thesis
    by blast
qed

text \<open>
  Right after the purchase, with the status \<open>in_progress\<close>, user 3, who is neither
  the buyer nor the seller, confirms: the call succeeds and the seller is paid.
\<close>

theorem C3_confirmReceived_counterexample:
  "map_of (deals s_bought) ''#A7342'' = Some (golden\<lparr>buyer := Some 2, locked := 25 / 2,
       status := ''in_progress'', locked_at := Some ''t1''\<rparr>)
   \<and> buyer_received s_bought ''#A7342'' 3 ''t3'' = Inr s_done_early
   \<and> balance_of s_bought 1 = 0 \<and> balance_of s_done_early 1 = 25 / 2"
  by (simp add: deals_scenario buyer_received_s_bought)
    (simp add: scenario_defs balance_of_def)

subsection \<open>Confirming twice\<close>

text \<open>
  C2, as the code has it. In a sound ledger (amounts of 8 decimals, ten million at
  most), two confirmations of the same deal (one that has a buyer) credit the seller
  one amount, the deal's locked amount: after the first the seller's balance is the
  balance plus the locked amount in 8 decimals, the second credits 0 and leaves every
  balance as it is. The second confirmation is not refused: it succeeds, sets the time
  of completion again and replaces the completion record by one of amount 0.
\<close>

theorem C2_confirm_twice:
  assumes "ledger_ok s" and "map_of (deals s) dealId = Some d" and "\<not> no_buyer d"
  shows "\<exists>s1 s2. buyer_received s dealId a1 t1 = Inr s1
     \<and> buyer_received s1 dealId a2 t2 = Inr s2
     \<and> toFixed8 (balance_of s1 (seller d))
          = toFixed8 (balance_of s (seller d)) + toFixed8 (locked d)
     \<and> (\<forall>v. v \<noteq> seller d \<longrightarrow> balance_of s1 v = balance_of s v)
     \<and> balances s2 = balances s1
     \<and> map_of (deals s2) dealId =
          Some (d\<lparr>status := ''done'', completed_at := Some t2, locked := 0\<rparr>)
     \<and> map_of (logs s2) dealId =
          Some \<lparr>log_id = dealId, log_seller = seller d, log_buyer = buyer d,
                log_amount = 0, log_title = title d, log_desc = desc d,
                log_completed_at = Some t2\<rparr>"
proof -
  let ?d1 = "d\<lparr>status := ''done'', completed_at := Some t1, locked := 0\<rparr>"
  let ?b1 = "num8 (plus64 (balance_of s (seller d)) (locked d))"
  from buyer_received_deal [OF assms(2,3), of a1 t1]
  obtain s1 where r1: "buyer_received s dealId a1 t1 = Inr s1"
    and b1: "balance_of s1 (seller d) = ?b1"
    and m1: "map_of (balances s1) (seller d) = Some ?b1"
    and o1: "\<forall>v. v \<noteq> seller d \<longrightarrow> balance_of s1 v = balance_of s v"
    and d1: "map_of (deals s1) dealId = Some ?d1"
    by blast
  have nb: "\<not> no_buyer ?d1"
    using assms(3) by (simp add: no_buyer_def)
  from buyer_received_deal [OF d1 nb, of a2 t2]
  obtain s2 where r2: "buyer_received s1 dealId a2 t2 = Inr s2"
    and d2: "map_of (deals s2) dealId =
        Some (?d1\<lparr>status := ''done'', completed_at := Some t2, locked := 0\<rparr>)"
    and l2: "map_of (logs s2) dealId =
          Some \<lparr>log_id = dealId, log_seller = seller ?d1, log_buyer = buyer ?d1,
                log_amount = locked ?d1, log_title = title ?d1, log_desc = desc ?d1,
                log_completed_at = Some t2\<rparr>"
    and bs2: "balances s2 =
        AList.update (seller ?d1) (num8 (plus64 (balance_of s1 (seller ?d1)) (locked ?d1)))
          (balances s1)"
    by blast
  note e = credit_locked_exact [OF assms(1,2), of "seller d"]
  from credit_nothing [OF e(2)] have "num8 (plus64 (balance_of s1 (seller ?d1)) (locked ?d1)) = ?b1"
    by (simp add: b1)
  with bs2 have "balances s2 = AList.update (seller d) ?b1 (balances s1)"
    by simp
  with update_triv [OF m1] have 5: "balances s2 = balances s1"
    by simp
  from b1 e(1) have 3: "toFixed8 (balance_of s1 (seller d))
      = toFixed8 (balance_of s (seller d)) + toFixed8 (locked d)"
    by simp
  from d2 have 6: "map_of (deals s2) dealId =
          Some (d\<lparr>status := ''done'', completed_at := Some t2, locked := 0\<rparr>)"
    by simp
  from l2 have 7: "map_of (logs s2) dealId =
          Some \<lparr>log_id = dealId, log_seller = seller d, log_buyer = buyer d,
                log_amount = 0, log_title = title d, log_desc = desc d,
                log_completed_at = Some t2\<rparr>"
    by simp
  from r1 r2 3 o1 5 6 7 show ?thesis by blast
qed

theorem C2_confirm_twice_witness:
  "ledger_ok s_sent
   \<and> map_of (deals s_sent) ''#A7342'' = Some (golden\<lparr>buyer := Some 2, locked := 25 / 2,
       status := ''sent_to_support'', locked_at := Some ''t1'', sent_at := Some ''t2''\<rparr>)
   \<and> \<not> no_buyer (golden\<lparr>buyer := Some 2, locked := 25 / 2,
       status := ''sent_to_support'', locked_at := Some ''t1'', sent_at := Some ''t2''\<rparr>)
   \<and> buyer_received s_sent ''#A7342'' 2 ''t3'' = Inr s_done
   \<and> buyer_received s_done ''#A7342'' 2 ''t4'' = Inr s_done_again
   \<and> balances s_done_again = balances s_done
   \<and> toFixed8 (balance_of s_done 1) = toFixed8 (balance_of s_sent 1) + toFixed8 (25 / 2)"
proof -
  have b: "\<not> no_buyer (golden\<lparr>buyer := Some 2, locked := 25 / 2,
       status := ''sent_to_support'', locked_at := Some ''t1'', sent_at := Some ''t2''\<rparr>)"
    by (simp add: no_buyer_def)
  from C2_confirm_twice [OF ledger_ok_scenario(3) deals_scenario(3) b, of 2 "''t3''" 2 "''t4''"]
  obtain s1 s2 where "buyer_received s_sent ''#A7342'' 2 ''t3'' = Inr s1"
    and "buyer_received s1 ''#A7342'' 2 ''t4'' = Inr s2"
    and "balances s2 = balances s1"
    and "toFixed8 (balance_of s1 (seller (golden\<lparr>buyer := Some 2, locked := 25 / 2,
       status := ''sent_to_support'', locked_at := Some ''t1'', sent_at := Some ''t2''\<rparr>))) =
      toFixed8 (balance_of s_sent (seller (golden\<lparr>buyer := Some 2, locked := 25 / 2,
       status := ''sent_to_support'', locked_at := Some ''t1'', sent_at := Some ''t2''\<rparr>)))
       + toFixed8 (locked (golden\<lparr>buyer := Some 2, locked := 25 / 2,
       status := ''sent_to_support'', locked_at := Some ''t1'', sent_at := Some ''t2''\<rparr>))"
    by blast
  then have "balances s_done_again = balances s_done"
    and "toFixed8 (balance_of s_done 1) = toFixed8 (balance_of s_sent 1) + toFixed8 (25 / 2)"
    by (simp_all add: buyer_received_s_sent buyer_received_s_done golden_def)
  with b ledger_ok_scenario(3) deals_scenario(3) buyer_received_s_sent buyer_received_s_done
  show ?thesis by blast
qed

text \<open>
  The buyer confirms the deal at \<^verbatim>\<open>t3\<close> and again at \<^verbatim>\<open>t4\<close>: the second call
  succeeds, the deal record has a new time of completion and the completion record has
  the amount 0. And in the ledger with a billion, the confirmation of the deal that
  holds 0.00000001 leaves the seller's balance at the billion it was, since
  \<^verbatim>\<open>1000000000 + 0.00000001\<close> is \<^verbatim>\<open>1000000000\<close> in binary64.
\<close>

theorem C2_confirm_twice_counterexample:
  "buyer_received s_sent ''#A7342'' 2 ''t3'' = Inr s_done
   \<and> buyer_received s_done ''#A7342'' 2 ''t4'' = Inr s_done_again
   \<and> buyer_received s_done ''#A7342'' 2 ''t4'' \<noteq> Inl InvalidState
   \<and> map_of (deals s_done_again) ''#A7342'' \<noteq> map_of (deals s_done) ''#A7342''
   \<and> map_of (logs s_done_again) ''#A7342'' \<noteq> map_of (logs s_done) ''#A7342''
   \<and> map_of (deals s_big_bought) ''#A7342'' =
        Some (golden\<lparr>price := dust, buyer := Some 2, locked := dust,
                 status := ''in_progress'', locked_at := Some ''t1''\<rparr>)
   \<and> 0 < dust
   \<and> buyer_received s_big_bought ''#A7342'' 2 ''t3'' = Inr s_big_done
   \<and> balance_of s_big_bought 1 = 1000000000
   \<and> balance_of s_big_done 1 = 1000000000"
  using big_examples(7)
  by (simp add: buyer_received_s_sent buyer_received_s_done buyer_received_s_big_bought)
    (simp add: scenario_defs big_defs balance_of_def)

section \<open>Sequences of operations\<close>

subsection \<open>Stored amounts keep 8 decimals\<close>

lemma stored8_num8: "stored8 (num8 x)"
  unfolding stored8_def num8_def using is8_toFixed8 by blast

lemma stored8_0: "stored8 0"
  unfolding stored8_def using is8_0 round64_0 by metis

lemma stored_lookup:
  "stored_ok s \<Longrightarrow> map_of (deals s) k = Some d \<Longrightarrow> stored8 (price d) \<and> stored8 (locked d)"
proof -
  assume "stored_ok s" and d: "map_of (deals s) k = Some d"
  then have "list_all (\<lambda>kd. stored8 (price (snd kd)) \<and> stored8 (locked (snd kd))) (deals s)"
    by (simp add: stored_ok_def)
  from list_all_map_of [OF this d] show ?thesis by simp
qed

lemma stored_ok_exec:
  assumes "stored_ok s"
  shows "stored_ok (exec owner s x)"
proof (cases x)
  case (CreateDeal u ty ti de pv now)
  with assms show ?thesis
    by (simp add: exec_CreateDeal stored_ok_def list_all_update stored8_num8 stored8_0
        split: option.splits)
next
  case (Buy dealId u now)
  show ?thesis
  proof (cases "map_of (deals s) dealId")
    case None
    with assms show ?thesis by (simp add: Buy exec_Buy)
  next
    case (Some d)
    from stored_lookup [OF assms Some] assms Some show ?thesis
      by (simp add: Buy exec_Buy stored_ok_def list_all_update stored8_num8)
  qed
next
  case (MarkSent dealId u now)
  show ?thesis
  proof (cases "map_of (deals s) dealId")
    case None
    with assms show ?thesis by (simp add: MarkSent exec_MarkSent stored_ok_def)
  next
    case (Some d)
    from stored_lookup [OF assms Some] assms Some show ?thesis
      by (simp add: MarkSent exec_MarkSent stored_ok_def list_all_update)
  qed
next
  case (ConfirmReceived dealId u now)
  show ?thesis
  proof (cases "map_of (deals s) dealId")
    case None
    with assms show ?thesis by (simp add: ConfirmReceived exec_ConfirmReceived)
  next
    case (Some d)
    from stored_lookup [OF assms Some] assms Some show ?thesis
      by (simp add: ConfirmReceived exec_ConfirmReceived stored_ok_def list_all_update
          stored8_num8 stored8_0)
  qed
next
  case (ReportProblem dealId u)
  with assms show ?thesis by (simp add: exec_ReportProblem)
next
  case (AdminCredit u args)
  with assms show ?thesis
    by (simp add: exec_AdminCredit stored_ok_def list_all_update stored8_num8
        split: option.splits prod.splits)
qed

lemma stored_ok_run: "stored_ok s \<Longrightarrow> stored_ok (run owner s xs)"
  by (induction xs arbitrary: s) (simp_all add: stored_ok_exec)

lemma stored_ok_init: "stored_ok state_init"
  by (simp add: stored_ok_def state_init_def)

subsection \<open>Rounding on every path\<close>

lemma balance_of_AdminCredit:
  "balance_of (exec owner s (AdminCredit owner (Some (t, Some amt)))) t =
     num8 (plus64 (balance_of s t) (round64 amt))"
  by (simp add: exec_AdminCredit balance_of_update)

lemma credit_example:
  assumes "amount_ok b" and "toFixed8 b \<le> 9999999"
  shows "toFixed8 (num8 (plus64 b (round64 (123456789 / 1000000000))))
       = toFixed8 b + 12345679 / 100000000"
proof -
  define amt :: rat where "amt = round64 (123456789 / 1000000000)"
  define T where "T = toFixed8 b + 12345679 / 100000000"
  note B = amount_ok_dec [OF assms(1)]
  have "\<bar>123456789 / 1000000000 :: rat\<bar> < 16777216" by simp
  from round64_err [OF this] have a: "\<bar>amt - 123456789 / 1000000000\<bar> \<le> 1 / 1073741824"
    by (simp add: amt_def)
  from assms(1) have b0: "0 \<le> b" by (simp add: amount_ok_def)
  have a0: "0 \<le> amt" unfolding amt_def by (rule round64_nonneg) simp
  from a B(4) assms(2) b0 a0 have "\<bar>b + amt\<bar> < 16777216" by linarith
  from round64_err [OF this] a B(4)
  have "\<bar>round64 (b + amt) - T\<bar> < 1 / 200000000"
    unfolding T_def by linarith
  moreover have T8: "is8 T"
    unfolding T_def by (rule is8_add [OF B(1)]) (simp add: is8_def)
  ultimately have "toFixed8 (round64 (b + amt)) = T"
    by (rule toFixed8_near [rotated])
  moreover from B(2) assms(2) have "0 \<le> T" "T \<le> 10000000"
    by (simp_all add: T_def)
  from amount_of_decimal(1) [OF T8 this] have "toFixed8 (round64 T) = T" .
  ultimately show ?thesis
    by (simp add: num8_def plus64_def amt_def [symmetric] T_def)
qed

lemma price_example:
  "\<not> round64 (123456789 / 1000000000) \<le> 0"
  "num8 (round64 (123456789 / 1000000000)) = round64 (12345679 / 100000000)"
  "toFixed8 (round64 (12345679 / 100000000)) = 12345679 / 100000000"
  "num8 (plus64 0 (round64 (123456789 / 1000000000))) = round64 (12345679 / 100000000)"
  by (code_simp+)

text \<open>
  C9, as the code has it. Every amount a handler stores is
  \<^verbatim>\<open>Number(x.toFixed(8))\<close>: \<^verbatim>\<open>toFixed(8)\<close> rounds to the nearest multiple of
  \<open>10\<^sup>-\<^sup>8\<close> (at most half a unit of the 8th decimal away) and the number stored is the
  binary64 value of that decimal, so every operation and every sequence of operations
  keeps the balances, prices and locked amounts binary64 values of 8-decimal amounts. A
  credit of 0.123456789 to a balance of at most 9999999 adds 0.12345679 in 8 decimals,
  not 0.12345678, and a deal created with that price has the price 0.12345679.
\<close>

theorem C9_rounding:
  assumes "stored_ok s"
  shows "stored_ok (exec owner s x) \<and> stored_ok (run owner s xs)
     \<and> is8 (toFixed8 a) \<and> \<bar>toFixed8 a - a\<bar> \<le> 1 / 200000000
     \<and> balance_of (exec owner s (AdminCredit owner (Some (t, Some a)))) t
          = num8 (plus64 (balance_of s t) (round64 a))
     \<and> (amount_ok (balance_of s t) \<and> toFixed8 (balance_of s t) \<le> 9999999 \<longrightarrow>
          toFixed8 (balance_of
              (exec owner s (AdminCredit owner (Some (t, Some (123456789 / 1000000000))))) t)
            = toFixed8 (balance_of s t) + 12345679 / 100000000)
     \<and> map_of (deals (exec owner s (CreateDeal u ty ti de (Some (123456789 / 1000000000)) now)))
          (fst (nextDealId (seq s)))
        = Some \<lparr>deal_id = fst (nextDealId (seq s)), seller = u, buyer = None, title = ti,
                 desc = de,
                 dtype = (case ty of None \<Rightarrow> ''NFT'' | Some t \<Rightarrow> if t = [] then ''NFT'' else t),
                 price = round64 (12345679 / 100000000), status = ''open'', locked = 0,
                 created_at = now, locked_at = None, sent_at = None, completed_at = None\<rparr>
     \<and> toFixed8 (round64 (12345679 / 100000000)) = 12345679 / 100000000"
proof -
  have 1: "amount_ok (balance_of s t) \<and> toFixed8 (balance_of s t) \<le> 9999999 \<longrightarrow>
          toFixed8 (balance_of
              (exec owner s (AdminCredit owner (Some (t, Some (123456789 / 1000000000))))) t)
            = toFixed8 (balance_of s t) + 12345679 / 100000000"
    using credit_example [of "balance_of s t"] by (simp add: balance_of_AdminCredit)
  have 2: "map_of (deals (exec owner s (CreateDeal u ty ti de (Some (123456789 / 1000000000)) now)))
          (fst (nextDealId (seq s)))
        = Some \<lparr>deal_id = fst (nextDealId (seq s)), seller = u, buyer = None, title = ti,
                 desc = de,
                 dtype = (case ty of None \<Rightarrow> ''NFT'' | Some t \<Rightarrow> if t = [] then ''NFT'' else t),
                 price = round64 (12345679 / 100000000), status = ''open'', locked = 0,
                 created_at = now, locked_at = None, sent_at = None, completed_at = None\<rparr>"
    using price_example(1) by (simp add: exec_CreateDeal update_conv' price_example(2))
  from 1 2 show ?thesis
    using stored_ok_exec [OF assms] stored_ok_run [OF assms] is8_toFixed8 toFixed8_nearest
      balance_of_AdminCredit price_example(3)
    by blast
qed

theorem C9_rounding_witness:
  "stored_ok state_init
   \<and> amount_ok (balance_of state_init 2) \<and> toFixed8 (balance_of state_init 2) \<le> 9999999
   \<and> stored_ok (exec 9 state_init (AdminCredit 9 (Some (2, Some (123456789 / 1000000000)))))
   \<and> toFixed8 (balance_of
        (exec 9 state_init (AdminCredit 9 (Some (2, Some (123456789 / 1000000000))))) 2)
        = toFixed8 (balance_of state_init 2) + 12345679 / 100000000"
proof -
  have z: "amount_ok (balance_of state_init 2) \<and> toFixed8 (balance_of state_init 2) \<le> 9999999"
    by (simp add: balance_of_def state_init_def amount_ok_0 toFixed8_0)
  from C9_rounding [OF stored_ok_init,
      of 9 "AdminCredit 9 (Some (2, Some (123456789 / 1000000000)))" "[]" 0 2]
  show ?thesis
    using z stored_ok_init by blast
qed

text \<open>
  The owner credits 0.123456789 to user 2, who holds nothing: the balance stored is the
  binary64 value of 0.12345679, which reads 0.12345679 and not 0.12345678.
\<close>

theorem C9_rounding_counterexample:
  "balance_of (exec 9 state_init (AdminCredit 9 (Some (2, Some (123456789 / 1000000000))))) 2
     = round64 (12345679 / 100000000)
   \<and> toFixed8 (balance_of
        (exec 9 state_init (AdminCredit 9 (Some (2, Some (123456789 / 1000000000))))) 2)
     = 12345679 / 100000000
   \<and> toFixed8 (balance_of
        (exec 9 state_init (AdminCredit 9 (Some (2, Some (123456789 / 1000000000))))) 2)
     \<noteq> 12345678 / 100000000"
proof -
  have "balance_of state_init 2 = 0"
    by (simp add: balance_of_def state_init_def)
  then show ?thesis
    by (simp add: balance_of_AdminCredit price_example(3,4))
qed

subsection \<open>Balances below zero\<close>

lemma num8_nonneg: "0 \<le> x \<Longrightarrow> 0 \<le> num8 x"
  by (simp add: num8_def round64_nonneg toFixed8_nonneg)

lemma plus64_nonneg: "0 \<le> a \<Longrightarrow> 0 \<le> b \<Longrightarrow> 0 \<le> plus64 a b"
  by (simp add: plus64_def round64_nonneg)

lemma minus64_nonneg: "b \<le> a \<Longrightarrow> 0 \<le> minus64 a b"
  by (simp add: minus64_def round64_nonneg)

lemma nonneg_balance_of: "nonneg_ok s \<Longrightarrow> 0 \<le> balance_of s u"
proof (cases "map_of (balances s) u")
  case None
  then show ?thesis by (simp add: balance_of_def)
next
  case (Some b)
  assume "nonneg_ok s"
  then have "list_all (\<lambda>ub. 0 \<le> snd ub) (balances s)" by (simp add: nonneg_ok_def)
  from list_all_map_of [OF this Some] Some show ?thesis by (simp add: balance_of_def)
qed

lemma nonneg_deal_lookup:
  "nonneg_ok s \<Longrightarrow> map_of (deals s) k = Some d \<Longrightarrow> 0 \<le> price d \<and> 0 \<le> locked d"
proof -
  assume "nonneg_ok s" and d: "map_of (deals s) k = Some d"
  then have "list_all (\<lambda>kd. 0 \<le> price (snd kd) \<and> 0 \<le> locked (snd kd)) (deals s)"
    by (simp add: nonneg_ok_def)
  from list_all_map_of [OF this d] show ?thesis by simp
qed

lemma nonneg_ok_exec:
  assumes "nonneg_ok s" and "nonneg_credit x"
  shows "nonneg_ok (exec owner s x)"
proof (cases x)
  case (CreateDeal u ty ti de pv now)
  have "\<not> round64 p \<le> 0 \<Longrightarrow> 0 \<le> num8 (round64 p)" for p
    by (rule num8_nonneg) simp
  with assms show ?thesis
    by (simp add: CreateDeal exec_CreateDeal nonneg_ok_def list_all_update
        split: option.splits)
next
  case (Buy dealId u now)
  show ?thesis
  proof (cases "map_of (deals s) dealId")
    case None
    with assms show ?thesis by (simp add: Buy exec_Buy)
  next
    case (Some d)
    from nonneg_deal_lookup [OF assms(1) Some] assms(1) Some show ?thesis
      by (simp add: Buy exec_Buy nonneg_ok_def list_all_update num8_nonneg minus64_nonneg)
  qed
next
  case (MarkSent dealId u now)
  show ?thesis
  proof (cases "map_of (deals s) dealId")
    case None
    with assms show ?thesis by (simp add: MarkSent exec_MarkSent nonneg_ok_def)
  next
    case (Some d)
    from nonneg_deal_lookup [OF assms(1) Some] assms(1) Some show ?thesis
      by (simp add: MarkSent exec_MarkSent nonneg_ok_def list_all_update)
  qed
next
  case (ConfirmReceived dealId u now)
  show ?thesis
  proof (cases "map_of (deals s) dealId")
    case None
    with assms show ?thesis by (simp add: ConfirmReceived exec_ConfirmReceived)
  next
    case (Some d)
    from nonneg_deal_lookup [OF assms(1) Some] nonneg_balance_of [OF assms(1), of "seller d"]
      assms(1) Some
    show ?thesis
      by (simp add: ConfirmReceived exec_ConfirmReceived nonneg_ok_def list_all_update
          num8_nonneg plus64_nonneg)
  qed
next
  case (ReportProblem dealId u)
  with assms show ?thesis by (simp add: exec_ReportProblem)
next
  case (AdminCredit u args)
  show ?thesis
  proof (cases "\<exists>t a. args = Some (t, Some a)")
    case False
    with assms(1) show ?thesis
      by (auto simp: AdminCredit exec_AdminCredit split: option.splits prod.splits)
  next
    case True
    then obtain t a where a: "args = Some (t, Some a)" by blast
    with assms(2) AdminCredit have "0 \<le> a" by simp
    then have "0 \<le> round64 a" by (rule round64_nonneg)
    with nonneg_balance_of [OF assms(1), of t] assms(1) show ?thesis
      by (simp add: AdminCredit a exec_AdminCredit nonneg_ok_def list_all_update
          num8_nonneg plus64_nonneg)
  qed
qed

lemma nonneg_ok_run:
  "nonneg_ok s \<Longrightarrow> list_all nonneg_credit xs \<Longrightarrow> nonneg_ok (run owner s xs)"
  by (induction xs arbitrary: s) (simp_all add: nonneg_ok_exec)

lemma nonneg_ok_init: "nonneg_ok state_init"
  by (simp add: nonneg_ok_def state_init_def)

text \<open>
  C7, as the code has it. From the initial state, after any sequence of operations in
  which no \<^verbatim>\<open>/givebalance\<close> has a negative amount, no balance is below zero.
\<close>

theorem C7_balances_nonneg:
  assumes "list_all nonneg_credit ops"
  shows "0 \<le> balance_of (run owner state_init ops) u"
  using nonneg_balance_of [OF nonneg_ok_run [OF nonneg_ok_init assms]] .

text \<open>The owner gives user 2 the amount -5: the balance of user 2 is -5.\<close>

theorem C7_balances_nonneg_counterexample:
  "balance_of (run 9 state_init [AdminCredit 9 (Some (2, Some (- 5)))]) 2 = - 5
   \<and> balance_of (run 9 state_init [AdminCredit 9 (Some (2, Some (- 5)))]) 2 < 0"
proof -
  have "balance_of state_init 2 = 0"
    by (simp add: balance_of_def state_init_def)
  then show ?thesis
    by (simp add: balance_of_AdminCredit num8_examples)
qed

theorem C7_balances_nonneg_witness:
  "list_all nonneg_credit
     [AdminCredit 9 (Some (2, Some 20)),
      CreateDeal 1 (Some ''NFT'') ''Golden Gift'' ''rare'' (Some (25 / 2)) ''t0'',
      Buy ''#A7342'' 2 ''t1'']
   \<and> 0 \<le> balance_of (run 9 state_init
     [AdminCredit 9 (Some (2, Some 20)),
      CreateDeal 1 (Some ''NFT'') ''Golden Gift'' ''rare'' (Some (25 / 2)) ''t0'',
      Buy ''#A7342'' 2 ''t1'']) 2"
proof -
  have h: "list_all nonneg_credit
     [AdminCredit 9 (Some (2, Some 20)),
      CreateDeal 1 (Some ''NFT'') ''Golden Gift'' ''rare'' (Some (25 / 2)) ''t0'',
      Buy ''#A7342'' 2 ''t1'']"
    by simp
  from C7_balances_nonneg [OF h, of 9 2] h show ?thesis
    by blast
qed

subsection \<open>Conservation step by step\<close>

lemma ledger_ok_step:
  assumes "ledger_ok s"
    and "list_all (\<lambda>ub. amount_ok (snd ub)) (balances s')"
    and "list_all (\<lambda>kd. deal_ok (snd kd)) (deals s')"
    and "total_funds s' = total_funds s"
  shows "ledger_ok s' \<and> total_funds s' = total_funds s"
  using assms by (simp add: ledger_ok_def)

lemma ledger_exec:
  assumes "ledger_ok s" and "\<not> is_admin x" and "\<not> reuses_id s x"
  shows "ledger_ok (exec owner s x) \<and> total_funds (exec owner s x) = total_funds s"
proof (cases x)
  case (CreateDeal u ty ti de pv now)
  show ?thesis
  proof (cases "\<exists>p. pv = Some p \<and> \<not> round64 p \<le> 0")
    case False
    with assms(1) show ?thesis
      by (auto simp: CreateDeal exec_CreateDeal split: option.splits)
  next
    case True
    then obtain p where p: "pv = Some p" "\<not> round64 p \<le> 0" by blast
    let ?k = "fst (nextDealId (seq s))"
    let ?d = "\<lparr>deal_id = ?k, seller = u, buyer = None, title = ti, desc = de,
        dtype = (case ty of None \<Rightarrow> ''NFT'' | Some t \<Rightarrow> if t = [] then ''NFT'' else t),
        price = num8 (round64 p), status = ''open'', locked = 0,
        created_at = now, locked_at = None, sent_at = None, completed_at = None\<rparr>"
    let ?s' = "s\<lparr>seq := snd (nextDealId (seq s)), deals := AList.update ?k ?d (deals s)\<rparr>"
    from p have e: "exec owner s x = ?s'"
      by (simp add: CreateDeal exec_CreateDeal)
    from p assms(3) have fresh: "map_of (deals s) ?k = None"
      by (simp add: CreateDeal reuses_id_CreateDeal del: reuses_id.simps)
    from p(2) have "0 \<le> toFixed8 (round64 p)"
      by (intro toFixed8_nonneg) simp
    then have "price_ok (num8 (round64 p))"
      unfolding price_ok_def num8_def using is8_toFixed8 by blast
    then have d: "deal_ok ?d"
      by (simp add: deal_ok_def amount_ok_0)
    have t: "total_funds ?s' = total_funds s"
      by (simp add: total_funds_deals_update [where s = s] fresh toFixed8_0)
    have "ledger_ok ?s' \<and> total_funds ?s' = total_funds s"
    proof (rule ledger_ok_step [OF assms(1) _ _ t])
      from assms(1) show "list_all (\<lambda>ub. amount_ok (snd ub)) (balances ?s')"
        by (simp add: ledger_ok_def)
      from assms(1) d show "list_all (\<lambda>kd. deal_ok (snd kd)) (deals ?s')"
        by (simp add: ledger_ok_def list_all_update)
    qed
    then show ?thesis by (simp only: e)
  qed
next
  case (Buy dealId u now)
  show ?thesis
  proof (cases "map_of (deals s) dealId")
    case None
    with assms(1) show ?thesis by (simp add: Buy exec_Buy)
  next
    case (Some d)
    show ?thesis
    proof (cases "status d \<noteq> ''open'' \<or> balance_of s u < price d")
      case True
      with Some assms(1) show ?thesis by (simp add: Buy exec_Buy)
    next
      case False
      let ?b = "num8 (minus64 (balance_of s u) (price d))"
      let ?d = "d\<lparr>buyer := Some u, locked := price d, status := ''in_progress'',
          locked_at := Some now\<rparr>"
      let ?s' = "s\<lparr>balances := AList.update u ?b (balances s),
          deals := AList.update dealId ?d (deals s)\<rparr>"
      from False Some have e: "exec owner s x = ?s'"
        by (simp add: Buy exec_Buy)
      from False have le: "price d \<le> balance_of s u" by simp
      note X = debit_price_exact [OF assms(1) Some le]
      from deal_ok_lookup [OF assms(1) Some] False
      have l: "locked d = 0" and p: "price_ok (price d)"
        by (simp_all add: deal_ok_def)
      from p X(3) have d: "deal_ok ?d"
        by (simp add: deal_ok_def)
      have t: "total_funds ?s' = total_funds s"
        by (simp add: total_funds_update [where s = s] Some l X(1) toFixed8_0)
      have "ledger_ok ?s' \<and> total_funds ?s' = total_funds s"
      proof (rule ledger_ok_step [OF assms(1) _ _ t])
        from assms(1) X(2) show "list_all (\<lambda>ub. amount_ok (snd ub)) (balances ?s')"
          by (simp add: ledger_ok_def list_all_update)
        from assms(1) d show "list_all (\<lambda>kd. deal_ok (snd kd)) (deals ?s')"
          by (simp add: ledger_ok_def list_all_update)
      qed
      then show ?thesis by (simp only: e)
    qed
  qed
next
  case (MarkSent dealId u now)
  show ?thesis
  proof (cases "map_of (deals s) dealId")
    case None
    with assms(1) show ?thesis
      by (simp add: MarkSent exec_MarkSent ledger_ok_def total_funds_def total_balances_def
          total_locked_def)
  next
    case (Some d)
    let ?d = "d\<lparr>status := ''sent_to_support'', sent_at := Some now\<rparr>"
    let ?s' = "s\<lparr>deals := AList.update dealId ?d (deals s)\<rparr>"
    from Some have e: "exec owner s x = ?s'"
      by (simp add: MarkSent exec_MarkSent)
    from deal_ok_lookup [OF assms(1) Some] have d: "deal_ok ?d"
      by (simp add: deal_ok_def)
    have t: "total_funds ?s' = total_funds s"
      by (simp add: total_funds_deals_update [where s = s] Some)
    have "ledger_ok ?s' \<and> total_funds ?s' = total_funds s"
    proof (rule ledger_ok_step [OF assms(1) _ _ t])
      from assms(1) show "list_all (\<lambda>ub. amount_ok (snd ub)) (balances ?s')"
        by (simp add: ledger_ok_def)
      from assms(1) d show "list_all (\<lambda>kd. deal_ok (snd kd)) (deals ?s')"
        by (simp add: ledger_ok_def list_all_update)
    qed
    then show ?thesis by (simp only: e)
  qed
next
  case (ConfirmReceived dealId u now)
  show ?thesis
  proof (cases "map_of (deals s) dealId")
    case None
    with assms(1) show ?thesis by (simp add: ConfirmReceived exec_ConfirmReceived)
  next
    case (Some d)
    show ?thesis
    proof (cases "no_buyer d")
      case True
      with Some assms(1) show ?thesis by (simp add: ConfirmReceived exec_ConfirmReceived)
    next
      case False
      let ?b = "num8 (plus64 (balance_of s (seller d)) (locked d))"
      let ?d = "d\<lparr>status := ''done'', completed_at := Some now, locked := 0\<rparr>"
      let ?s' = "s\<lparr>balances := AList.update (seller d) ?b (balances s),
          deals := AList.update dealId ?d (deals s),
          logs := AList.update dealId
            \<lparr>log_id = dealId, log_seller = seller d, log_buyer = buyer d,
              log_amount = locked d, log_title = title d, log_desc = desc d,
              log_completed_at = Some now\<rparr> (logs s)\<rparr>"
      from False Some have e: "exec owner s x = ?s'"
        by (simp add: ConfirmReceived exec_ConfirmReceived)
      note X = credit_locked_exact [OF assms(1) Some, of "seller d"]
      from deal_ok_lookup [OF assms(1) Some] have d: "deal_ok ?d"
        by (simp add: deal_ok_def amount_ok_0)
      have t: "total_funds ?s' = total_funds s"
        by (simp add: total_funds_update [where s = s] Some X(1) toFixed8_0)
      have "ledger_ok ?s' \<and> total_funds ?s' = total_funds s"
      proof (rule ledger_ok_step [OF assms(1) _ _ t])
        from assms(1) X(2) show "list_all (\<lambda>ub. amount_ok (snd ub)) (balances ?s')"
          by (simp add: ledger_ok_def list_all_update)
        from assms(1) d show "list_all (\<lambda>kd. deal_ok (snd kd)) (deals ?s')"
          by (simp add: ledger_ok_def list_all_update)
      qed
      then show ?thesis by (simp only: e)
    qed
  qed
next
  case (ReportProblem dealId u)
  with assms(1) show ?thesis by (simp add: exec_ReportProblem)
next
  case (AdminCredit u args)
  with assms(2) show ?thesis by simp
qed

lemma ledger_run:
  "ledger_ok s \<Longrightarrow> list_all (\<lambda>x. \<not> is_admin x) xs \<Longrightarrow> no_id_reuse owner s xs \<Longrightarrow>
     ledger_ok (run owner s xs) \<and> total_funds (run owner s xs) = total_funds s"
proof (induction xs arbitrary: s)
  case Nil
  then show ?case by simp
next
  case (Cons x xs)
  from Cons.prems have 1: "ledger_ok (exec owner s x) \<and> total_funds (exec owner s x) = total_funds s"
    by (intro ledger_exec) simp_all
  moreover from Cons.prems 1
  have "ledger_ok (run owner (exec owner s x) xs)
      \<and> total_funds (run owner (exec owner s x) xs) = total_funds (exec owner s x)"
    by (intro Cons.IH) simp_all
  ultimately show ?case by simp
qed

subsection \<open>Conservation of funds\<close>

lemma ledger_ok_wrap_start: "ledger_ok wrap_start"
  by (simp add: ledger_ok_def wrap_start_def state_init_def amount_ok_examples
      total_funds_def total_balances_def total_locked_def toFixed8_examples)

text \<open>
  C1, as the code has it. Take a sound ledger (amounts of 8 decimals, funds of ten
  million at most) and any sequence of the operations createDeal, buy, markSent,
  confirmReceived and reportProblem in which no createDeal is issued an id that the
  deal store already holds: the ledger stays sound, and the sum of all balances plus the
  sum of all locked amounts, each read to 8 decimals, is the same before and after the
  sequence.
\<close>

theorem C1_conservation:
  assumes "ledger_ok s"
    and "list_all (\<lambda>x. \<not> is_admin x) ops"
    and "no_id_reuse owner s ops"
  shows "total_funds (run owner s ops) = total_funds s \<and> ledger_ok (run owner s ops)"
  using ledger_run [OF assms] by simp

theorem C1_conservation_witness:
  "ledger_ok wrap_start
   \<and> list_all (\<lambda>x. \<not> is_admin x)
     [CreateDeal 1 (Some ''NFT'') ''Golden Gift'' ''rare'' (Some (25 / 2)) ''t0'',
      Buy ''#A7342'' 2 ''t1'', MarkSent ''#A7342'' 1 ''t2'',
      ConfirmReceived ''#A7342'' 2 ''t3'', ReportProblem ''#A7342'' 2]
   \<and> no_id_reuse 9 wrap_start
       [CreateDeal 1 (Some ''NFT'') ''Golden Gift'' ''rare'' (Some (25 / 2)) ''t0'',
        Buy ''#A7342'' 2 ''t1'', MarkSent ''#A7342'' 1 ''t2'',
        ConfirmReceived ''#A7342'' 2 ''t3'', ReportProblem ''#A7342'' 2]
   \<and> run 9 state_init [AdminCredit 9 (Some (2, Some 20)), AdminCredit 9 (Some (3, Some 5))]
       = wrap_start
   \<and> run 9 wrap_start
       [CreateDeal 1 (Some ''NFT'') ''Golden Gift'' ''rare'' (Some (25 / 2)) ''t0'',
        Buy ''#A7342'' 2 ''t1'', MarkSent ''#A7342'' 1 ''t2'',
        ConfirmReceived ''#A7342'' 2 ''t3'', ReportProblem ''#A7342'' 2] = s_done
   \<and> total_funds s_done = total_funds wrap_start"
proof -
  let ?ops = "[CreateDeal 1 (Some ''NFT'') ''Golden Gift'' ''rare'' (Some (25 / 2)) ''t0'',
      Buy ''#A7342'' 2 ''t1'', MarkSent ''#A7342'' 1 ''t2'',
      ConfirmReceived ''#A7342'' 2 ''t3'', ReportProblem ''#A7342'' 2]"
  have a: "list_all (\<lambda>x. \<not> is_admin x) ?ops"
    by simp
  have r: "run 9 wrap_start ?ops = s_done"
    by (simp add: exec_create_golden exec_scenario exec_ReportProblem)
  have n: "no_id_reuse 9 wrap_start ?ops"
    using reuses_id_create_golden
    by (simp add: exec_create_golden exec_scenario del: reuses_id.simps) simp
  from C1_conservation [OF ledger_ok_wrap_start a n]
  have "total_funds s_done = total_funds wrap_start"
    by (simp only: r)
  with a n r ledger_ok_wrap_start run_funding show ?thesis by blast
qed

subsection \<open>The counter coming round to an id in use\<close>

lemma advance_small: "number q < 9999 \<Longrightarrow> advance q = q\<lparr>number := Suc (number q)\<rparr>"
  by (simp add: advance_def nextDealId_def)

lemma advance_iter_small:
  "number q + n \<le> 9999 \<Longrightarrow> (advance ^^ n) q = q\<lparr>number := number q + n\<rparr>"
proof (induction n)
  case 0
  then show ?case by simp
next
  case (Suc n)
  then have "(advance ^^ n) q = q\<lparr>number := number q + n\<rparr>" by simp
  with Suc.prems show ?case by (simp add: advance_small)
qed

lemma advance_roll:
  "number q = 9999 \<Longrightarrow> of_char (letter q) < (90::nat) \<Longrightarrow>
     advance q = \<lparr>letter = char_of (of_char (letter q) + (1::nat)), number = 1000\<rparr>"
  by (simp add: advance_def nextDealId_def)

lemma funpow_chain: "(f ^^ b) x = z \<Longrightarrow> (f ^^ a) z = y \<Longrightarrow> (f ^^ (a + b)) x = y"
  by (simp add: funpow_add)

lemma advance_letter:
  assumes "c < 90"
  shows "(advance ^^ 9000) \<lparr>letter = char_of c, number = 1000\<rparr>
     = \<lparr>letter = char_of (Suc c), number = 1000\<rparr>"
proof -
  have a: "(advance ^^ 8999) \<lparr>letter = char_of c, number = 1000\<rparr>
      = \<lparr>letter = char_of c, number = 9999\<rparr>"
    using advance_iter_small [of "\<lparr>letter = char_of c, number = 1000\<rparr>" 8999] by simp
  have b: "(advance ^^ 1) \<lparr>letter = char_of c, number = 9999\<rparr>
      = \<lparr>letter = char_of (Suc c), number = 1000\<rparr>"
    using assms advance_roll [of "\<lparr>letter = char_of c, number = 9999\<rparr>"] by simp
  from funpow_chain [OF a b] show ?thesis by simp
qed

lemma advance_letters:
  "c + m \<le> 90 \<Longrightarrow>
     (advance ^^ (m * 9000)) \<lparr>letter = char_of c, number = 1000\<rparr>
       = \<lparr>letter = char_of (c + m), number = 1000\<rparr>"
proof (induction m)
  case 0
  then show ?case by simp
next
  case (Suc m)
  then have a: "(advance ^^ (m * 9000)) \<lparr>letter = char_of c, number = 1000\<rparr>
       = \<lparr>letter = char_of (c + m), number = 1000\<rparr>"
    by simp
  from Suc.prems have "c + m < 90" by simp
  from funpow_chain [OF a advance_letter [OF this]] show ?case
    by (simp add: add.commute)
qed

lemma char_of_B_Z: "char_of (66::nat) = CHR ''B''" "char_of (90::nat) = CHR ''Z''"
  by (simp_all add: char_of_eq_iff)

lemma advance_round:
  "(advance ^^ 233999) \<lparr>letter = CHR ''A'', number = 7343\<rparr>
     = \<lparr>letter = CHR ''A'', number = 7342\<rparr>"
proof -
  have a: "(advance ^^ 2656) \<lparr>letter = CHR ''A'', number = 7343\<rparr>
      = \<lparr>letter = CHR ''A'', number = 9999\<rparr>"
    using advance_iter_small [of "\<lparr>letter = CHR ''A'', number = 7343\<rparr>" 2656] by simp
  have b: "(advance ^^ 1) \<lparr>letter = CHR ''A'', number = 9999\<rparr>
      = \<lparr>letter = char_of (66::nat), number = 1000\<rparr>"
    by (simp add: advance_def nextDealId_A9999 char_of_B_Z)
  have c: "(advance ^^ (24 * 9000)) \<lparr>letter = char_of (66::nat), number = 1000\<rparr>
      = \<lparr>letter = char_of ((66::nat) + 24), number = 1000\<rparr>"
    by (rule advance_letters) simp
  have d: "(advance ^^ 8999) \<lparr>letter = char_of ((66::nat) + 24), number = 1000\<rparr>
      = \<lparr>letter = CHR ''Z'', number = 9999\<rparr>"
    using advance_iter_small [of "\<lparr>letter = CHR ''Z'', number = 1000\<rparr>" 8999]
    by (simp add: char_of_B_Z)
  have e: "(advance ^^ 1) \<lparr>letter = CHR ''Z'', number = 9999\<rparr>
      = \<lparr>letter = CHR ''A'', number = 1000\<rparr>"
    by (simp add: advance_def nextDealId_Z9999)
  have f: "(advance ^^ 6342) \<lparr>letter = CHR ''A'', number = 1000\<rparr>
      = \<lparr>letter = CHR ''A'', number = 7342\<rparr>"
    using advance_iter_small [of "\<lparr>letter = CHR ''A'', number = 1000\<rparr>" 6342] by simp
  from funpow_chain [OF funpow_chain [OF funpow_chain [OF funpow_chain [OF funpow_chain
    [OF a b] c] d] e] f]
  show ?thesis by simp
qed

lemma exec_another:
  "exec owner s another =
     s\<lparr>seq := advance (seq s),
       deals := AList.update (fst (nextDealId (seq s)))
         \<lparr>deal_id = fst (nextDealId (seq s)), seller = 1, buyer = None, title = ''gift'',
           desc = ''another'', dtype = ''NFT'', price = 1, status = ''open'', locked = 0,
           created_at = ''t2'', locked_at = None, sent_at = None, completed_at = None\<rparr>
         (deals s)\<rparr>"
  by (simp add: another_def exec_CreateDeal advance_def round64_examples num8_plain)

lemma only_old_locked_another:
  assumes "only_old_locked old s"
  shows "only_old_locked old (exec owner s another)"
proof -
  let ?k = "fst (nextDealId (seq s))"
  let ?d = "\<lparr>deal_id = ?k, seller = 1, buyer = None, title = ''gift'',
           desc = ''another'', dtype = ''NFT'', price = 1, status = ''open'', locked = 0,
           created_at = ''t2'', locked_at = None, sent_at = None, completed_at = None\<rparr>"
  from assms have "distinct (map fst (AList.update ?k ?d (deals s)))"
    by (simp add: only_old_locked_def distinct_update)
  moreover have "\<forall>kd \<in> set (AList.update ?k ?d (deals s)). kd \<in> set old \<or> locked (snd kd) = 0"
    using assms set_update_subset [of ?k ?d "deals s"]
    by (auto simp: only_old_locked_def)
  ultimately show ?thesis
    by (simp add: exec_another only_old_locked_def)
qed

lemma run_replicate_another:
  "only_old_locked old s \<Longrightarrow>
     balances (run owner s (replicate n another)) = balances s
     \<and> seq (run owner s (replicate n another)) = (advance ^^ n) (seq s)
     \<and> only_old_locked old (run owner s (replicate n another))"
proof (induction n arbitrary: s)
  case 0
  then show ?case by simp
next
  case (Suc n)
  from Suc.IH [OF only_old_locked_another [OF Suc.prems], of owner]
  show ?case
    by (simp add: exec_another funpow_swap1)
qed

lemma sum_list_all_zero:
  fixes f :: "'v \<Rightarrow> rat"
  shows "\<forall>kv \<in> set xs. f (snd kv) = 0 \<Longrightarrow> sum_list (map (\<lambda>kv. f (snd kv)) xs) = 0"
  by (induction xs) simp_all

lemma set_update_distinct:
  "distinct (map fst xs) \<Longrightarrow>
     set (AList.update k v xs) \<subseteq> insert (k, v) {kv \<in> set xs. fst kv \<noteq> k}"
  by (induction xs) (auto simp: image_iff)

lemma wrap_final_locked:
  assumes "only_old_locked [(k, d)] s" and "locked d' = 0"
  shows "total_locked (s\<lparr>seq := q, deals := AList.update k d' (deals s)\<rparr>) = 0"
proof -
  from assms(1) have dist: "distinct (map fst (deals s))"
    and old: "\<forall>kd \<in> set (deals s). kd = (k, d) \<or> locked (snd kd) = 0"
    by (simp_all add: only_old_locked_def)
  have "\<forall>kv \<in> set (AList.update k d' (deals s)). locked (snd kv) = 0"
  proof
    fix kv assume "kv \<in> set (AList.update k d' (deals s))"
    with set_update_distinct [OF dist, of k d']
    have "kv = (k, d') \<or> (kv \<in> set (deals s) \<and> fst kv \<noteq> k)" by auto
    with old assms(2) show "locked (snd kv) = 0" by auto
  qed
  then have "\<forall>kv \<in> set (AList.update k d' (deals s)). toFixed8 (locked (snd kv)) = 0"
    by (simp add: toFixed8_0)
  then show ?thesis
    by (simp add: total_locked_def sum_list_all_zero [where f = "\<lambda>d. toFixed8 (locked d)"])
qed

lemma run_wrap_prefix:
  "run 9 wrap_start
     [CreateDeal 1 (Some ''NFT'') ''Golden Gift'' ''rare'' (Some (25 / 2)) ''t0'',
      Buy ''#A7342'' 2 ''t1''] = s_bought"
  by (simp add: exec_create_golden exec_scenario)

lemma total_funds_wrap_start: "total_funds wrap_start = 25"
  by (simp add: total_funds_def total_balances_def total_locked_def wrap_start_def state_init_def
      toFixed8_examples)

lemma total_funds_wrap_end: "total_funds (run 9 wrap_start wrap_ops) = 25 / 2"
proof -
  let ?s3 = "run 9 s_bought (replicate 233999 another)"
  have old: "only_old_locked [(''#A7342'', golden\<lparr>buyer := Some 2, locked := 25 / 2,
      status := ''in_progress'', locked_at := Some ''t1''\<rparr>)] s_bought"
    by (simp add: only_old_locked_def s_bought_def s_open_def)
  note r = run_replicate_another [OF old, of 9 233999]
  from r have b: "balances ?s3 = [(2, 15 / 2), (3, 5)]"
    by (simp add: s_bought_def s_open_def)
  from r have "seq ?s3 = (advance ^^ 233999) \<lparr>letter = CHR ''A'', number = 7343\<rparr>"
    by (simp add: s_bought_def s_open_def)
  then have q: "seq ?s3 = \<lparr>letter = CHR ''A'', number = 7342\<rparr>"
    by (simp only: advance_round)
  then have k: "fst (nextDealId (seq ?s3)) = ''#A7342''"
    using nextDealId_init by (simp add: seq_init_def)
  from r have o: "only_old_locked [(''#A7342'', golden\<lparr>buyer := Some 2, locked := 25 / 2,
      status := ''in_progress'', locked_at := Some ''t1''\<rparr>)] ?s3"
    by simp
  have "run 9 wrap_start wrap_ops = exec 9 ?s3 another"
    using run_wrap_prefix by (simp add: wrap_ops_def run_append)
  then have e: "run 9 wrap_start wrap_ops =
      ?s3\<lparr>seq := advance (seq ?s3),
       deals := AList.update ''#A7342''
         \<lparr>deal_id = ''#A7342'', seller = 1, buyer = None, title = ''gift'',
           desc = ''another'', dtype = ''NFT'', price = 1, status = ''open'', locked = 0,
           created_at = ''t2'', locked_at = None, sent_at = None, completed_at = None\<rparr>
         (deals ?s3)\<rparr>"
    by (simp only: exec_another k)
  have "total_locked (run 9 wrap_start wrap_ops) = 0"
    unfolding e by (rule wrap_final_locked [OF o]) simp
  moreover have "total_balances (run 9 wrap_start wrap_ops) = 25 / 2"
    unfolding e by (simp add: total_balances_def b toFixed8_examples)
  ultimately show ?thesis
    by (simp add: total_funds_def)
qed

lemma exec_buy_big: "exec 9 s_big_open (Buy ''#A7342'' 2 ''t1'') = s_big_bought"
  by (simp add: exec_def buy_s_big_open)

text \<open>
  After the counter has come round, the deal created last is stored under the id of the
  deal that holds the buyer's 12.5: these funds are gone from the total. And in the
  ledger with a billion, the purchase of the deal for 0.00000001 locks that amount and
  leaves the buyer's balance as it was: the total has grown by 0.00000001.
\<close>

theorem C1_conservation_counterexample:
  "\<not> list_ex is_admin wrap_ops
   \<and> run 9 state_init [AdminCredit 9 (Some (2, Some 20)), AdminCredit 9 (Some (3, Some 5))]
       = wrap_start
   \<and> total_funds wrap_start = 25
   \<and> total_funds (run 9 wrap_start wrap_ops) = 25 / 2
   \<and> total_funds (run 9 wrap_start wrap_ops) \<noteq> total_funds wrap_start
   \<and> run 9 state_init
       [AdminCredit 9 (Some (2, Some 1000000000)), AdminCredit 9 (Some (1, Some 1000000000)),
        CreateDeal 1 (Some ''NFT'') ''Golden Gift'' ''rare'' (Some (1 / 100000000)) ''t0'']
       = s_big_open
   \<and> run 9 s_big_open [Buy ''#A7342'' 2 ''t1''] = s_big_bought
   \<and> total_funds s_big_open = 2000000000
   \<and> total_funds s_big_bought = 2000000000 + 1 / 100000000"
proof -
  have "\<not> list_ex is_admin wrap_ops"
    by (simp add: wrap_ops_def another_def list_ex_iff)
  moreover have "total_funds (run 9 wrap_start wrap_ops) \<noteq> total_funds wrap_start"
    by (simp add: total_funds_wrap_start total_funds_wrap_end)
  moreover have "run 9 s_big_open [Buy ''#A7342'' 2 ''t1''] = s_big_bought"
    by (simp add: exec_buy_big)
  ultimately show ?thesis
    using run_funding total_funds_wrap_start total_funds_wrap_end run_big total_funds_big(1,2)
    by blast
qed

end
